theory Spec2Isabelle
  imports Complex_Main "HOL-Library.Multiset"
begin

section \<open>Resume ranker: a model of \<open>app.py\<close>\<close>

text \<open>
  The program is one Python file with three functions: \<open>extract_text_from_pdf\<close>,
  \<open>score_resume\<close> and \<open>main\<close>. Everything the functions do to the outside world
  (Streamlit calls, opening a PDF, calling the language model) is recorded as a list of
  events, in program order; everything the outside world hands back (uploaded files, the
  environment, the model's replies) is an argument.
\<close>

subsection \<open>Python values\<close>

text \<open>An exception is represented by the text \<open>str(e)\<close> that the handlers print.\<close>

type_synonym exn = string

text \<open>
  A Python number as \<open>score_resume\<close> handles it: the \<open>int\<close> constants \<open>0\<close>, \<open>100\<close>, \<open>-1\<close>
  and the \<open>float\<close> that \<open>float()\<close> returns. A finite value is the real number it denotes
  (rounding to binary64 is not modelled; it is monotone and fixes \<open>0\<close> and \<open>100\<close>, so it
  commutes with the clamp); the three special floats are constructors of their own.
\<close>

datatype pyfloat = Fin real | PInf | NInf | NaN

text \<open>Python's \<open><\<close> on numbers: every comparison with \<open>nan\<close> is false.\<close>

fun py_lt :: "pyfloat \<Rightarrow> pyfloat \<Rightarrow> bool" where
  "py_lt NaN _ = False"
| "py_lt _ NaN = False"
| "py_lt (Fin a) (Fin b) = (a < b)"
| "py_lt (Fin _) PInf = True"
| "py_lt (Fin _) NInf = False"
| "py_lt PInf _ = False"
| "py_lt NInf NInf = False"
| "py_lt NInf _ = True"

text \<open>
  The builtins \<open>min(a, b)\<close> and \<open>max(a, b)\<close> start from the first argument and replace it
  only when the next one is strictly smaller (\<open>b < a\<close>), respectively strictly greater
  (\<open>b > a\<close>).
\<close>

definition py_min :: "pyfloat \<Rightarrow> pyfloat \<Rightarrow> pyfloat" where
  "py_min a b = (if py_lt b a then b else a)"

definition py_max :: "pyfloat \<Rightarrow> pyfloat \<Rightarrow> pyfloat" where
  "py_max a b = (if py_lt a b then b else a)"

subsection \<open>Strings: \<open>str.strip()\<close> and \<open>float()\<close>\<close>

text \<open>
  Strings are lists of 8-bit characters, read as Latin-1 code points. The characters
  below are the ones of that range for which \<open>str.isspace()\<close> holds: tab, line feed,
  vertical tab, form feed, carriage return, the four separators \<open>0x1C\<close> to \<open>0x1F\<close>, space,
  next line \<open>0x85\<close> and no-break space \<open>0xA0\<close>.
\<close>

definition is_space :: "char \<Rightarrow> bool" where
  "is_space c = (c \<in> set [CHR 0x09, CHR 0x0A, CHR 0x0B, CHR 0x0C, CHR 0x0D,
                            CHR 0x1C, CHR 0x1D, CHR 0x1E, CHR 0x1F, CHR 0x20,
                            CHR 0x85, CHR 0xA0])"

definition py_strip :: "string \<Rightarrow> string" where
  "py_strip s = rev (dropWhile is_space (rev (dropWhile is_space s)))"

definition digit_of :: "char \<Rightarrow> nat option" where
  "digit_of c = map_of (zip ''0123456789'' [0, 1, 2, 3, 4, 5, 6, 7, 8, 9]) c"

text \<open>
  \<open>digitpart ::= digit (["_"] digit)*\<close>: the longest such prefix of the input, as the
  list of its digits, and the rest of the input. No digit at the front gives \<open>[]\<close>.
\<close>

fun digits_tail :: "string \<Rightarrow> nat list \<times> string" where
  "digits_tail [] = ([], [])"
| "digits_tail [c] = (case digit_of c of Some d \<Rightarrow> ([d], []) | None \<Rightarrow> ([], [c]))"
| "digits_tail (c # c' # cs) =
     (case digit_of c of
        Some d \<Rightarrow> (let (ds, r) = digits_tail (c' # cs) in (d # ds, r))
      | None \<Rightarrow>
          (if c = CHR ''_'' then
             (case digit_of c' of
                Some d \<Rightarrow> (let (ds, r) = digits_tail cs in (d # ds, r))
              | None \<Rightarrow> ([], c # c' # cs))
           else ([], c # c' # cs)))"

fun digitpart :: "string \<Rightarrow> nat list \<times> string" where
  "digitpart [] = ([], [])"
| "digitpart (c # cs) =
     (case digit_of c of
        Some d \<Rightarrow> (let (ds, r) = digits_tail cs in (d # ds, r))
      | None \<Rightarrow> ([], c # cs))"

definition nat_of_digits :: "nat list \<Rightarrow> nat" where
  "nat_of_digits ds = foldl (\<lambda>a d. 10 * a + d) 0 ds"

text \<open>\<open>sign ::= "+" | "-"\<close>, optional: whether the value is negated, and the rest.\<close>

fun take_sign :: "string \<Rightarrow> bool \<times> string" where
  "take_sign [] = (False, [])"
| "take_sign (c # cs) =
     (if c = CHR ''-'' then (True, cs) else if c = CHR ''+'' then (False, cs)
      else (False, c # cs))"

text \<open>\<open>exponent ::= ("e" | "E") [sign] digitpart\<close>, optional, up to the end of the input.\<close>

fun parse_exponent :: "string \<Rightarrow> int option" where
  "parse_exponent [] = Some 0"
| "parse_exponent (c # cs) =
     (if c = CHR ''e'' \<or> c = CHR ''E'' then
        (let (neg, r) = take_sign cs; (ds, r') = digitpart r in
         if ds = [] \<or> r' \<noteq> [] then None
         else Some (if neg then - int (nat_of_digits ds) else int (nat_of_digits ds)))
      else None)"

definition scale10 :: "nat \<Rightarrow> int \<Rightarrow> real" where
  "scale10 m k = (if 0 \<le> k then real m * 10 ^ nat k else real m / 10 ^ nat (- k))"

text \<open>
  \<open>floatnumber ::= number [exponent]\<close> with
  \<open>number ::= [digitpart] "." digitpart | digitpart ["."]\<close>: the value, or \<open>None\<close> when
  the whole input is not of that form.
\<close>

definition parse_decimal :: "string \<Rightarrow> real option" where
  "parse_decimal s =
     (let (ip, r1) = digitpart s;
          (fp, r2) = (case r1 of
                        [] \<Rightarrow> ([], r1)
                      | c # t \<Rightarrow> if c = CHR ''.'' then digitpart t else ([], r1))
      in if ip = [] \<and> fp = [] then None
         else (case parse_exponent r2 of
                 None \<Rightarrow> None
               | Some e \<Rightarrow> Some (scale10 (nat_of_digits (ip @ fp)) (e - int (length fp)))))"

definition lower :: "char \<Rightarrow> char" where
  "lower c = (case map_of (zip ''ABCDEFGHIJKLMNOPQRSTUVWXYZ'' ''abcdefghijklmnopqrstuvwxyz'') c of
                Some l \<Rightarrow> l | None \<Rightarrow> c)"

text \<open>
  The builtin \<open>float(s)\<close> on a string: surrounding whitespace is ignored, then
  \<open>[sign] (floatnumber | "inf" | "infinity" | "nan")\<close>, the words in any letter case.
  \<open>None\<close> is the \<open>ValueError\<close>.
\<close>

definition py_float :: "string \<Rightarrow> pyfloat option" where
  "py_float s =
     (let (neg, body) = take_sign (py_strip s); word = map lower body in
      if word = ''inf'' \<or> word = ''infinity'' then Some (if neg then NInf else PInf)
      else if word = ''nan'' then Some NaN
      else (case parse_decimal body of
              None \<Rightarrow> None
            | Some v \<Rightarrow> Some (Fin (if neg then - v else v))))"

text \<open>The message of the \<open>ValueError\<close> (the quoting of \<open>repr\<close> is reduced to the two quotes).\<close>

definition float_error :: "string \<Rightarrow> exn" where
  "float_error s = ''could not convert string to float: '' @ [CHR 0x27] @ s @ [CHR 0x27]"

subsection \<open>The outside world\<close>

datatype message = SystemMessage string | HumanMessage string

text \<open>
  How a ranked line shows its score: \<open>"N/A"\<close>, or the number under the format \<open>.2f\<close>
  (the rendering of the digits is left symbolic).
\<close>

datatype score_display = NA | TwoDecimals pyfloat

text \<open>
  What the program does, in the order it does it: the Streamlit calls, opening an
  uploaded PDF (\<open>fitz.open(stream=file.read(), ...)\<close>, tagged with the file's name) and
  one call of the language model with its messages. \<open>Progress n d\<close> is the progress bar
  set to \<open>n / d\<close>; \<open>Ranked i name s\<close> is the line
  \<open>"**{i}. {name}** - Score: {s}"\<close> of the ranking.
\<close>

datatype event =
    PageConfig
  | Title string
  | Markdown string
  | Spinner string
  | Warning string
  | Error string
  | Progress nat nat
  | Subheader string
  | Ranked nat string score_display
  | OpenPdf string
  | LlmCall "message list"

text \<open>
  An uploaded PDF: its name and what PyMuPDF makes of its bytes. \<open>Inl e\<close> is
  \<open>fitz.open\<close> (or \<open>file.read\<close>) raising \<open>e\<close>; \<open>Inr pages\<close> is a document, each page
  giving its text or raising in \<open>get_text()\<close>.
\<close>

record upload =
  filename :: string
  stream :: "exn + (exn + string) list"

text \<open>The four environment variables, \<open>None\<close> when unset.\<close>

record environ =
  AZURE_OPENAI_API_KEY :: "string option"
  AZURE_OPENAI_ENDPOINT :: "string option"
  AZURE_OPENAI_DEPLOYMENT_NAME :: "string option"
  AZURE_OPENAI_API_VERSION :: "string option"

text \<open>The keyword arguments of \<open>AzureChatOpenAI(...)\<close>.\<close>

record client =
  azure_deployment :: string
  azure_endpoint :: string
  openai_api_key :: string
  openai_api_version :: string
  temperature :: nat
  max_tokens :: nat

text \<open>
  The remote service: for a client and its messages, the \<open>content\<close> of the reply, or the
  exception the call raises. Within one run every call has its own messages (they embed
  the name, and the names scored are distinct), so a function loses no generality.
\<close>

type_synonym service = "client \<Rightarrow> message list \<Rightarrow> exn + string"

type_synonym llm = "message list \<Rightarrow> exn + string"

subsection \<open>\<open>extract_text_from_pdf\<close>\<close>

text \<open>The loop \<open>for page in doc: text += page.get_text()\<close>; a raising page ends it.\<close>

fun get_text_loop :: "(exn + string) list \<Rightarrow> string \<Rightarrow> exn + string" where
  "get_text_loop [] text = Inr text"
| "get_text_loop (page # doc) text =
     (case page of
        Inl e \<Rightarrow> Inl e
      | Inr t \<Rightarrow> get_text_loop doc (text @ t))"

definition extract_text_from_pdf :: "upload \<Rightarrow> string \<times> event list" where
  "extract_text_from_pdf file =
     (case stream file of
        Inl e \<Rightarrow> ('''', [OpenPdf (filename file), Error (''Error reading PDF file: '' @ e)])
      | Inr doc \<Rightarrow>
          (case get_text_loop doc '''' of
             Inl e \<Rightarrow> ('''', [OpenPdf (filename file), Error (''Error reading PDF file: '' @ e)])
           | Inr text \<Rightarrow> (text, [OpenPdf (filename file)])))"

subsection \<open>\<open>score_resume\<close>\<close>

definition system_prompt :: string where
  "system_prompt =
     ''You are a helpful assistant that scores how well a resume matches a job description. '' @
     ''Score on a scale of 0 to 100, where 0 means no match and 100 means perfect fit. '' @
     ''Provide only the score as a number.''"

definition query :: "string \<Rightarrow> string \<Rightarrow> string \<Rightarrow> string" where
  "query jd_text resume_text resume_name =
     ''Job Description:'' @ [CHR 0x0A] @ ''---'' @ [CHR 0x0A] @ jd_text @ [CHR 0x0A] @ ''---'' @ [CHR 0x0A] @
     ''Resume ('' @ resume_name @ ''):'' @ [CHR 0x0A] @ ''---'' @ [CHR 0x0A] @ resume_text @ [CHR 0x0A] @ ''---'' @ [CHR 0x0A] @
     ''On a scale from 0 to 100, how well does this resume match the job description? '' @
     ''Reply only with the numeric score.''"

definition could_not_score :: "string \<Rightarrow> exn \<Rightarrow> string" where
  "could_not_score resume_name e =
     ''Could not score resume '' @ [CHR 0x27] @ resume_name @ [CHR 0x27] @ '': '' @ e"

text \<open>
  The \<open>try\<close> block covers the call, the parse and the clamp; both ways of leaving it by
  an exception end in the same handler.
\<close>

definition score_resume :: "llm \<Rightarrow> string \<Rightarrow> string \<Rightarrow> string \<Rightarrow> pyfloat \<times> event list" where
  "score_resume llm jd_text resume_text resume_name =
     (let messages = [SystemMessage system_prompt,
                      HumanMessage (query jd_text resume_text resume_name)]
      in case llm messages of
           Inl e \<Rightarrow> (Fin (- 1), [LlmCall messages, Warning (could_not_score resume_name e)])
         | Inr content \<Rightarrow>
             (let score_text = py_strip content in
              case py_float score_text of
                None \<Rightarrow> (Fin (- 1), [LlmCall messages,
                                      Warning (could_not_score resume_name (float_error score_text))])
              | Some score \<Rightarrow> (py_max (Fin 0) (py_min (Fin 100) score), [LlmCall messages])))"

subsection \<open>\<open>main\<close>\<close>

text \<open>
  \<open>resumes_texts\<close> is a \<open>dict\<close>: keys in insertion order, and an assignment to a key that
  is already there replaces its value where it stands.
\<close>

fun dict_set :: "'k \<Rightarrow> 'v \<Rightarrow> ('k \<times> 'v) list \<Rightarrow> ('k \<times> 'v) list" where
  "dict_set k v [] = [(k, v)]"
| "dict_set k v ((k', v') # d) = (if k' = k then (k, v) # d else (k', v') # dict_set k v d)"

text \<open>The extraction loop of \<open>main\<close>: the dictionary at the end, and the events.\<close>

fun extract_loop :: "upload list \<Rightarrow> (string \<times> string) list \<Rightarrow> (string \<times> string) list \<times> event list" where
  "extract_loop [] resumes_texts = (resumes_texts, [])"
| "extract_loop (file # files) resumes_texts =
     (let (text, ev) = extract_text_from_pdf file;
          warn = (if py_strip text = '''' then
                    [Warning (''No text extracted from resume: '' @ filename file)]
                  else []);
          (resumes_texts', evs) = extract_loop files (dict_set (filename file) text resumes_texts)
      in (resumes_texts', ev @ warn @ evs))"

text \<open>An element of \<open>scores\<close>: the dictionary \<open>{"name": name, "score": score}\<close>.\<close>

record result =
  name :: string
  score :: pyfloat

text \<open>
  The scoring loop over \<open>enumerate(resumes_texts.items())\<close>, from index \<open>idx\<close> on, with
  the list \<open>scores\<close> built so far.
\<close>

fun score_loop :: "llm \<Rightarrow> string \<Rightarrow> nat \<Rightarrow> nat \<Rightarrow> (string \<times> string) list \<Rightarrow> result list \<Rightarrow> result list \<times> event list" where
  "score_loop llm jd_text total' idx [] scores = (scores, [])"
| "score_loop llm jd_text total' idx ((nm, text) # items) scores =
     (let (sc, ev) = score_resume llm jd_text text nm;
          (scores', evs) = score_loop llm jd_text total' (idx + 1) items
                             (scores @ [\<lparr>name = nm, score = sc\<rparr>])
      in (scores', ev @ [Progress (idx + 1) total'] @ evs))"

text \<open>
  \<open>sorted(scores, key=lambda x: x["score"], reverse=True)\<close>. The sort compares keys with
  \<open><\<close> only and is stable: a new element goes behind the elements already there that
  it is not smaller than. With \<open>reverse=True\<close> the list is reversed, sorted that way
  and reversed again, which makes the result descending and keeps equal keys in their
  order of arrival.
\<close>

fun insort_lt :: "('a \<Rightarrow> pyfloat) \<Rightarrow> 'a \<Rightarrow> 'a list \<Rightarrow> 'a list" where
  "insort_lt key x [] = [x]"
| "insort_lt key x (y # ys) =
     (if py_lt (key x) (key y) then x # y # ys else y # insort_lt key x ys)"

definition stable_sort :: "('a \<Rightarrow> pyfloat) \<Rightarrow> 'a list \<Rightarrow> 'a list" where
  "stable_sort key xs = foldl (\<lambda>acc x. insort_lt key x acc) [] xs"

definition sorted_reverse :: "('a \<Rightarrow> pyfloat) \<Rightarrow> 'a list \<Rightarrow> 'a list" where
  "sorted_reverse key xs = rev (stable_sort key (rev xs))"

text \<open>The display loop over \<open>enumerate(scores, start=1)\<close>, from rank \<open>i\<close> on.\<close>

fun display_loop :: "nat \<Rightarrow> result list \<Rightarrow> event list" where
  "display_loop i [] = []"
| "display_loop i (item # items) =
     Ranked i (name item) (if score item = Fin (- 1) then NA else TwoDecimals (score item))
       # display_loop (i + 1) items"

text \<open>The triple-quoted text of the introduction, with its line breaks and indentation.\<close>

definition intro :: string where
  "intro = [CHR 0x0A] @
     ''        Upload a **Job Description** text file and up to **10 Resume PDFs**.'' @ [CHR 0x0A] @
     ''        The app will extract content and use Azure OpenAI to score how well each resume matches the job description.'' @ [CHR 0x0A] @
     ''        Resumes will be ranked by score.'' @ [CHR 0x0A] @
     ''        ''"

definition env_error :: string where
  "env_error = ''Azure OpenAI environment variables are not set. Please set AZURE_OPENAI_API_KEY, AZURE_OPENAI_ENDPOINT, and AZURE_OPENAI_DEPLOYMENT_NAME.''"

text \<open>Truth of an \<open>os.getenv\<close> result: unset and the empty string are both false.\<close>

definition truthy :: "string option \<Rightarrow> bool" where
  "truthy v = (case v of None \<Rightarrow> False | Some s \<Rightarrow> s \<noteq> '''')"

text \<open>
  \<open>AzureChatOpenAI(...)\<close> as \<open>main\<close> builds it from the environment; the API version
  falls back to \<open>"2023-05-15"\<close>. It is built only after the three required variables
  have been found set.
\<close>

definition client_of_env :: "environ \<Rightarrow> client" where
  "client_of_env env =
     \<lparr>azure_deployment = the (AZURE_OPENAI_DEPLOYMENT_NAME env),
      azure_endpoint = the (AZURE_OPENAI_ENDPOINT env),
      openai_api_key = the (AZURE_OPENAI_API_KEY env),
      openai_api_version =
        (case AZURE_OPENAI_API_VERSION env of None \<Rightarrow> ''2023-05-15'' | Some v \<Rightarrow> v),
      temperature = 0, max_tokens = 100\<rparr>"

text \<open>
  The part of \<open>main\<close> after the job description has been read: extraction, the
  configuration check, scoring, ranking.
\<close>

definition process :: "service \<Rightarrow> environ \<Rightarrow> string \<Rightarrow> upload list \<Rightarrow> event list" where
  "process azure env jd_text resume_files =
     (let (resumes_texts, ev1) = extract_loop resume_files [] in
      Spinner ''Extracting text from resumes...'' # ev1 @
      (if length resumes_texts = 0 then [Error ''No resume texts available to score.'']
       else if \<not> (truthy (AZURE_OPENAI_API_KEY env) \<and> truthy (AZURE_OPENAI_ENDPOINT env)
                   \<and> truthy (AZURE_OPENAI_DEPLOYMENT_NAME env))
       then [Error env_error]
       else
         (let llm = azure (client_of_env env);
              (scores, ev2) = score_loop llm jd_text (length resumes_texts) 0 resumes_texts []
          in Spinner ''Initializing language model...'' # Progress 0 1 # ev2 @
             Subheader ''Ranked Resumes'' # display_loop 1 (sorted_reverse score scores))))"

text \<open>
  \<open>main\<close>. \<open>jd_file\<close> is \<open>None\<close> when no job description is uploaded, otherwise what
  \<open>jd_file.read().decode("utf-8")\<close> gives: the text, or the exception it raises. The
  result is everything the run did.
\<close>

definition main :: "service \<Rightarrow> environ \<Rightarrow> (exn + string) option \<Rightarrow> upload list \<Rightarrow> event list" where
  "main azure env jd_file resume_files =
     [PageConfig, Title ''Resume Ranking by Job Description'', Markdown intro] @
     (case jd_file of
        None \<Rightarrow> []
      | Some jd \<Rightarrow>
          if resume_files = [] then []
          else if length resume_files > 10 then
            [Warning ''Please upload no more than 10 resumes.'']
          else
            (case jd of
               Inl e \<Rightarrow> [Error (''Could not read Job Description file: '' @ e)]
             | Inr jd_text \<Rightarrow> process azure env jd_text resume_files))"

subsection \<open>Fixed inputs for the examples\<close>

text \<open>A service that answers every call with the same reply, and one whose calls all raise.\<close>

definition always :: "string \<Rightarrow> service" where
  "always reply = (\<lambda>c ms. Inr reply)"

definition failing :: "exn \<Rightarrow> service" where
  "failing e = (\<lambda>c ms. Inl e)"

definition full_env :: environ where
  "full_env = \<lparr>AZURE_OPENAI_API_KEY = Some ''key'',
               AZURE_OPENAI_ENDPOINT = Some ''https://example.openai.azure.com'',
               AZURE_OPENAI_DEPLOYMENT_NAME = Some ''gpt'',
               AZURE_OPENAI_API_VERSION = None\<rparr>"

definition a_client :: client where
  "a_client = \<lparr>azure_deployment = ''gpt'', azure_endpoint = ''https://example.openai.azure.com'',
               openai_api_key = ''key'', openai_api_version = ''2023-05-15'',
               temperature = 0, max_tokens = 100\<rparr>"

text \<open>A PDF of the given name whose pages carry the given texts.\<close>

definition pdf :: "string \<Rightarrow> string list \<Rightarrow> upload" where
  "pdf nm texts = \<lparr>filename = nm, stream = Inr (map Inr texts)\<rparr>"

definition broken_pdf :: "string \<Rightarrow> exn \<Rightarrow> upload" where
  "broken_pdf nm e = \<lparr>filename = nm, stream = Inl e\<rparr>"

text \<open>The messages of the call that scores one resume.\<close>

definition messages_for :: "string \<Rightarrow> string \<Rightarrow> string \<Rightarrow> message list" where
  "messages_for jd_text resume_text resume_name =
     [SystemMessage system_prompt, HumanMessage (query jd_text resume_text resume_name)]"

text \<open>The events that are work on a resume: opening its PDF, and a call of the model.\<close>

definition is_extraction :: "event \<Rightarrow> bool" where
  "is_extraction e = (case e of OpenPdf _ \<Rightarrow> True | _ \<Rightarrow> False)"

definition is_llm_call :: "event \<Rightarrow> bool" where
  "is_llm_call e = (case e of LlmCall _ \<Rightarrow> True | _ \<Rightarrow> False)"

text \<open>A well-formed PDF: it opens, and every page gives its text.\<close>

definition well_formed :: "upload \<Rightarrow> bool" where
  "well_formed file = (case stream file of Inl _ \<Rightarrow> False | Inr doc \<Rightarrow> list_all (\<lambda>p. \<not> isl p) doc)"

definition page_texts :: "upload \<Rightarrow> string list" where
  "page_texts file = (case stream file of Inl _ \<Rightarrow> [] | Inr doc \<Rightarrow> map projr doc)"

text \<open>The three required variables are set and not empty.\<close>

definition configured :: "environ \<Rightarrow> bool" where
  "configured env = (truthy (AZURE_OPENAI_API_KEY env) \<and> truthy (AZURE_OPENAI_ENDPOINT env)
                     \<and> truthy (AZURE_OPENAI_DEPLOYMENT_NAME env))"

text \<open>What every run does first.\<close>

definition header :: "event list" where
  "header = [PageConfig, Title ''Resume Ranking by Job Description'', Markdown intro]"

text \<open>The scores of the ranking example, in submission order.\<close>

definition abcd :: "result list" where
  "abcd = [\<lparr>name = ''A'', score = Fin 80\<rparr>, \<lparr>name = ''B'', score = Fin (- 1)\<rparr>,
           \<lparr>name = ''C'', score = Fin 95\<rparr>, \<lparr>name = ''D'', score = Fin 80\<rparr>]"

text \<open>
  The two local variables of \<open>main\<close> that the ranking is made from: \<open>resumes_texts\<close>
  after the extraction loop, and \<open>scores\<close> after the scoring loop (before it is sorted).
\<close>

definition resumes_texts_of :: "upload list \<Rightarrow> (string \<times> string) list" where
  "resumes_texts_of resume_files = fst (extract_loop resume_files [])"

definition scores_of :: "service \<Rightarrow> environ \<Rightarrow> string \<Rightarrow> upload list \<Rightarrow> result list" where
  "scores_of azure env jd_text resume_files =
     fst (score_loop (azure (client_of_env env)) jd_text (length (resumes_texts_of resume_files)) 0
            (resumes_texts_of resume_files) [])"

text \<open>A score that \<open>score_resume\<close> can return: a number from 0 to 100, or the sentinel.\<close>

definition score_or_sentinel :: "pyfloat \<Rightarrow> bool" where
  "score_or_sentinel p = (case p of Fin x \<Rightarrow> x = - 1 \<or> (0 \<le> x \<and> x \<le> 100) | _ \<Rightarrow> False)"

text \<open>An environment in which the API key is not set.\<close>

definition no_key_env :: environ where
  "no_key_env = full_env\<lparr>AZURE_OPENAI_API_KEY := None\<rparr>"

section \<open>Properties\<close>

subsection \<open>Numbers and parsing\<close>

lemma py_lt_Fin [simp]: "py_lt (Fin a) (Fin b) = (a < b)"
  by simp

lemma clamp_Fin: "py_max (Fin 0) (py_min (Fin 100) (Fin x)) = Fin (max 0 (min 100 x))"
  by (simp add: py_max_def py_min_def max_def min_def)

lemma clamp_special:
  "py_max (Fin 0) (py_min (Fin 100) PInf) = Fin 100"
  "py_max (Fin 0) (py_min (Fin 100) NInf) = Fin 0"
  "py_max (Fin 0) (py_min (Fin 100) NaN) = Fin 100"
  by (simp_all add: py_max_def py_min_def)

lemma clamp_range: "\<exists>r. py_max (Fin 0) (py_min (Fin 100) v) = Fin r \<and> 0 \<le> r \<and> r \<le> 100"
  by (cases v) (simp_all add: clamp_Fin clamp_special)

lemmas float_eval = py_float_def py_strip_def is_space_def parse_decimal_def digit_of_def
  nat_of_digits_def scale10_def lower_def

lemma py_float_150: "py_float (py_strip ''150'') = Some (Fin 150)"
  by (simp add: float_eval)

lemma py_float_minus_20: "py_float (py_strip ''-20'') = Some (Fin (- 20))"
  by (simp add: float_eval)

lemma py_float_73_5: "py_float (py_strip ''73.5'') = Some (Fin 73.5)"
  by (simp add: float_eval)

lemma py_float_NA: "py_float (py_strip ''N/A'') = None"
  by (simp add: float_eval)

lemma py_float_great_fit: "py_float (py_strip ''Great fit!'') = None"
  by (simp add: float_eval)

lemma py_float_nan: "py_float (py_strip '' NaN '') = Some NaN"
  by (simp add: float_eval)

lemma score_resume_parsed:
  assumes "llm (messages_for jd_text resume_text resume_name) = Inr reply"
    and "py_float (py_strip reply) = Some v"
  shows "score_resume llm jd_text resume_text resume_name =
           (py_max (Fin 0) (py_min (Fin 100) v), [LlmCall (messages_for jd_text resume_text resume_name)])"
  using assms by (simp add: score_resume_def messages_for_def)

lemma score_resume_failed:
  assumes "llm (messages_for jd_text resume_text resume_name) = Inl e
           \<or> (\<exists>reply. llm (messages_for jd_text resume_text resume_name) = Inr reply
                  \<and> py_float (py_strip reply) = None)"
  shows "\<exists>e'. score_resume llm jd_text resume_text resume_name =
           (Fin (- 1), [LlmCall (messages_for jd_text resume_text resume_name),
                        Warning (could_not_score resume_name e')])"
  using assms by (auto simp add: score_resume_def messages_for_def)

lemma score_resume_cases:
  "(\<exists>r. fst (score_resume llm jd_text resume_text resume_name) = Fin r \<and> 0 \<le> r \<and> r \<le> 100)
   \<or> fst (score_resume llm jd_text resume_text resume_name) = Fin (- 1)"
proof (cases "llm (messages_for jd_text resume_text resume_name)")
  case (Inl e)
  then show ?thesis using score_resume_failed [of llm jd_text resume_text resume_name e] by auto
next
  case (Inr reply)
  show ?thesis
  proof (cases "py_float (py_strip reply)")
    case None
    with Inr show ?thesis
      using score_resume_failed [of llm jd_text resume_text resume_name "''''"] by auto
  next
    case (Some v)
    with Inr show ?thesis
      using score_resume_parsed [of llm jd_text resume_text resume_name reply v]
        clamp_range [of v] by auto
  qed
qed

text \<open>
  C1. When the model replies and the trimmed reply parses as a float, \<open>score_resume\<close>
  returns a finite number between 0 and 100 inclusive, with no warning: a finite value
  clamped (\<open>max 0 (min 100 x)\<close>), \<open>inf\<close> as 100 and \<open>-inf\<close> as 0. The reply \<open>nan\<close>, which
  \<open>float()\<close> accepts too, comes out as 100, since every comparison with it is false.
\<close>

theorem score_resume_clamps:
  assumes "llm (messages_for jd_text resume_text resume_name) = Inr reply"
    and "py_float (py_strip reply) = Some v"
  shows "\<exists>r. score_resume llm jd_text resume_text resume_name =
               (Fin r, [LlmCall (messages_for jd_text resume_text resume_name)])
             \<and> 0 \<le> r \<and> r \<le> 100
             \<and> r = (case v of Fin x \<Rightarrow> max 0 (min 100 x) | PInf \<Rightarrow> 100 | NInf \<Rightarrow> 0 | NaN \<Rightarrow> 100)"
proof -
  have run: "score_resume llm jd_text resume_text resume_name =
      (py_max (Fin 0) (py_min (Fin 100) v), [LlmCall (messages_for jd_text resume_text resume_name)])"
    using assms by (rule score_resume_parsed)
  show ?thesis
  proof (cases v)
    case (Fin x)
    then show ?thesis using run by (simp add: clamp_Fin)
  next
    case PInf
    then show ?thesis using run by (simp add: clamp_special)
  next
    case NInf
    then show ?thesis using run by (simp add: clamp_special)
  next
    case NaN
    then show ?thesis using run by (simp add: clamp_special)
  qed
qed

theorem score_resume_clamps_witness:
  "fst (score_resume (always ''150'' a_client) ''jd'' ''cv'' ''a.pdf'') = Fin 100
   \<and> fst (score_resume (always ''-20'' a_client) ''jd'' ''cv'' ''a.pdf'') = Fin 0
   \<and> fst (score_resume (always ''73.5'' a_client) ''jd'' ''cv'' ''a.pdf'') = Fin 73.5"
proof -
  have "fst (score_resume (always ''150'' a_client) ''jd'' ''cv'' ''a.pdf'') = Fin 100"
    using score_resume_clamps [of "always ''150'' a_client" "''jd''" "''cv''" "''a.pdf''" "''150''" "Fin 150"]
      py_float_150 by (auto simp add: always_def)
  moreover have "fst (score_resume (always ''-20'' a_client) ''jd'' ''cv'' ''a.pdf'') = Fin 0"
    using score_resume_clamps [of "always ''-20'' a_client" "''jd''" "''cv''" "''a.pdf''" "''-20''" "Fin (- 20)"]
      py_float_minus_20 by (auto simp add: always_def)
  moreover have "fst (score_resume (always ''73.5'' a_client) ''jd'' ''cv'' ''a.pdf'') = Fin 73.5"
    using score_resume_clamps [of "always ''73.5'' a_client" "''jd''" "''cv''" "''a.pdf''" "''73.5''" "Fin 73.5"]
      py_float_73_5 by (auto simp add: always_def)
  ultimately show ?thesis by simp
qed

lemma score_resume_nan:
  "fst (score_resume (always '' NaN '' a_client) ''jd'' ''cv'' ''a.pdf'') = Fin 100"
  using score_resume_parsed [of "always '' NaN '' a_client" "''jd''" "''cv''" "''a.pdf''" "'' NaN ''" NaN]
    py_float_nan
  by (simp add: always_def clamp_special)

text \<open>
  C2. When the call of the model raises, or the trimmed reply does not parse as a float,
  \<open>score_resume\<close> returns \<open>-1\<close> and, after the call, issues exactly one warning, which
  quotes the name of the resume. The function is total: in both cases it returns a value.
\<close>

theorem score_resume_sentinel:
  assumes "llm (messages_for jd_text resume_text resume_name) = Inl e
           \<or> (\<exists>reply. llm (messages_for jd_text resume_text resume_name) = Inr reply
                  \<and> py_float (py_strip reply) = None)"
  shows "\<exists>e'. score_resume llm jd_text resume_text resume_name =
           (Fin (- 1),
            [LlmCall (messages_for jd_text resume_text resume_name),
             Warning (''Could not score resume '' @ [CHR 0x27] @ resume_name @ [CHR 0x27] @ '': '' @ e')])"
  using score_resume_failed [of llm jd_text resume_text resume_name e] assms
  by (simp add: could_not_score_def)

theorem score_resume_sentinel_witness:
  "fst (score_resume (always ''N/A'' a_client) ''jd'' ''cv'' ''a.pdf'') = Fin (- 1)
   \<and> fst (score_resume (always ''Great fit!'' a_client) ''jd'' ''cv'' ''a.pdf'') = Fin (- 1)
   \<and> score_resume (failing ''timeout'' a_client) ''jd'' ''cv'' ''a.pdf'' =
       (Fin (- 1), [LlmCall (messages_for ''jd'' ''cv'' ''a.pdf''),
                    Warning (''Could not score resume '' @ [CHR 0x27] @ ''a.pdf'' @ [CHR 0x27] @ '': timeout'')])"
proof -
  have "fst (score_resume (always ''N/A'' a_client) ''jd'' ''cv'' ''a.pdf'') = Fin (- 1)"
    using score_resume_sentinel [of "always ''N/A'' a_client" "''jd''" "''cv''" "''a.pdf''" "''''"]
      py_float_NA by (auto simp add: always_def)
  moreover have "fst (score_resume (always ''Great fit!'' a_client) ''jd'' ''cv'' ''a.pdf'') = Fin (- 1)"
    using score_resume_sentinel [of "always ''Great fit!'' a_client" "''jd''" "''cv''" "''a.pdf''" "''''"]
      py_float_great_fit by (auto simp add: always_def)
  moreover have "score_resume (failing ''timeout'' a_client) ''jd'' ''cv'' ''a.pdf'' =
       (Fin (- 1), [LlmCall (messages_for ''jd'' ''cv'' ''a.pdf''),
                    Warning (''Could not score resume '' @ [CHR 0x27] @ ''a.pdf'' @ [CHR 0x27] @ '': timeout'')])"
    using score_resume_sentinel [of "failing ''timeout'' a_client" "''jd''" "''cv''" "''a.pdf''" "''timeout''"]
    by (auto simp add: failing_def score_resume_def messages_for_def could_not_score_def)
  ultimately show ?thesis by simp
qed

subsection \<open>The stable sort\<close>

lemma mset_insort_lt: "mset (insort_lt key x ys) = add_mset x (mset ys)"
  by (induction ys) simp_all

lemma set_insort_lt: "set (insort_lt key x ys) = insert x (set ys)"
  using mset_insort_lt [of key x ys] by (metis set_mset_add_mset_insert set_mset_mset)

lemma mset_foldl_insort:
  "mset (foldl (\<lambda>acc x. insort_lt key x acc) acc xs) = mset acc + mset xs"
  by (induction xs arbitrary: acc) (simp_all add: mset_insort_lt)

lemma mset_stable_sort: "mset (stable_sort key xs) = mset xs"
  by (simp add: stable_sort_def mset_foldl_insort)

lemma mset_sorted_reverse: "mset (sorted_reverse key xs) = mset xs"
  by (simp add: sorted_reverse_def mset_stable_sort)

lemma set_sorted_reverse: "set (sorted_reverse key xs) = set xs"
  using mset_sorted_reverse [of key xs] by (metis set_mset_mset)

lemma length_sorted_reverse: "length (sorted_reverse key xs) = length xs"
  using mset_sorted_reverse [of key xs] by (metis size_mset)

text \<open>
  Below, \<open>v\<close> gives the real value of every key in sight: the keys are finite numbers,
  on which \<open>py_lt\<close> is the order of the reals.
\<close>

lemma sorted_insort_lt:
  assumes "key x = Fin (v x)" and "\<forall>y\<in>set ys. key y = Fin (v y)"
    and "sorted_wrt (\<lambda>a b. v a \<le> v b) ys"
  shows "sorted_wrt (\<lambda>a b. v a \<le> v b) (insort_lt key x ys)"
  using assms by (induction ys) (auto simp add: set_insort_lt)

lemma sorted_foldl_insort:
  assumes "\<forall>y\<in>set acc \<union> set xs. key y = Fin (v y)"
    and "sorted_wrt (\<lambda>a b. v a \<le> v b) acc"
  shows "sorted_wrt (\<lambda>a b. v a \<le> v b) (foldl (\<lambda>acc x. insort_lt key x acc) acc xs)"
  using assms
proof (induction xs arbitrary: acc)
  case Nil
  then show ?case by simp
next
  case (Cons x xs)
  have "sorted_wrt (\<lambda>a b. v a \<le> v b) (insort_lt key x acc)"
    using Cons.prems by (intro sorted_insort_lt) auto
  moreover have "\<forall>y\<in>set (insort_lt key x acc) \<union> set xs. key y = Fin (v y)"
    using Cons.prems by (auto simp add: set_insort_lt)
  ultimately show ?case using Cons.IH [of "insort_lt key x acc"] by simp
qed

lemma filter_insort_lt:
  assumes "key x = Fin (v x)" and "\<forall>y\<in>set ys. key y = Fin (v y)"
    and "sorted_wrt (\<lambda>a b. v a \<le> v b) ys"
  shows "filter (\<lambda>y. key y = k) (insort_lt key x ys) =
           filter (\<lambda>y. key y = k) ys @ (if key x = k then [x] else [])"
  using assms
proof (induction ys)
  case Nil
  then show ?case by simp
next
  case (Cons y ys)
  show ?case
  proof (cases "py_lt (key x) (key y)")
    case True
    then have less: "v x < v y" using Cons.prems by simp
    have "\<forall>z\<in>set (y # ys). key z \<noteq> key x"
    proof
      fix z assume z: "z \<in> set (y # ys)"
      then have "v y \<le> v z" using Cons.prems(3) by auto
      then have "v x < v z" using less by simp
      moreover have "key z = Fin (v z)" using z Cons.prems(2) by blast
      ultimately show "key z \<noteq> key x" using Cons.prems(1) by simp
    qed
    then have "key x = k \<Longrightarrow> filter (\<lambda>y. key y = k) (y # ys) = []"
      by (auto simp add: filter_empty_conv)
    with True show ?thesis by auto
  next
    case False
    then show ?thesis using Cons by auto
  qed
qed

lemma filter_foldl_insort:
  assumes "\<forall>y\<in>set acc \<union> set xs. key y = Fin (v y)"
    and "sorted_wrt (\<lambda>a b. v a \<le> v b) acc"
  shows "filter (\<lambda>y. key y = k) (foldl (\<lambda>acc x. insort_lt key x acc) acc xs) =
           filter (\<lambda>y. key y = k) acc @ filter (\<lambda>y. key y = k) xs"
  using assms
proof (induction xs arbitrary: acc)
  case Nil
  then show ?case by simp
next
  case (Cons x xs)
  have kx: "key x = Fin (v x)" and kacc: "\<forall>y\<in>set acc. key y = Fin (v y)"
    using Cons.prems by auto
  have srt: "sorted_wrt (\<lambda>a b. v a \<le> v b) (insort_lt key x acc)"
    using kx kacc Cons.prems(2) by (rule sorted_insort_lt)
  have fin: "\<forall>y\<in>set (insort_lt key x acc) \<union> set xs. key y = Fin (v y)"
    using Cons.prems by (auto simp add: set_insort_lt)
  have "filter (\<lambda>y. key y = k) (foldl (\<lambda>acc x. insort_lt key x acc) acc (x # xs)) =
        filter (\<lambda>y. key y = k) (insort_lt key x acc) @ filter (\<lambda>y. key y = k) xs"
    using Cons.IH [OF fin srt] by simp
  also have "filter (\<lambda>y. key y = k) (insort_lt key x acc) =
        filter (\<lambda>y. key y = k) acc @ (if key x = k then [x] else [])"
    using kx kacc Cons.prems(2) by (rule filter_insort_lt)
  finally show ?case by simp
qed

lemma sorted_reverse_descending:
  assumes "\<forall>y\<in>set xs. key y = Fin (v y)"
  shows "sorted_wrt (\<lambda>a b. v b \<le> v a) (sorted_reverse key xs)"
proof -
  have "sorted_wrt (\<lambda>a b. v a \<le> v b) (stable_sort key (rev xs))"
    unfolding stable_sort_def using assms by (intro sorted_foldl_insort) auto
  then show ?thesis by (simp add: sorted_reverse_def sorted_wrt_rev)
qed

lemma sorted_reverse_stable:
  assumes "\<forall>y\<in>set xs. key y = Fin (v y)"
  shows "filter (\<lambda>y. key y = k) (sorted_reverse key xs) = filter (\<lambda>y. key y = k) xs"
proof -
  have "filter (\<lambda>y. key y = k) (stable_sort key (rev xs)) = filter (\<lambda>y. key y = k) (rev xs)"
    unfolding stable_sort_def using filter_foldl_insort [of "[]" "rev xs" key v k] assms by simp
  then show ?thesis by (simp add: sorted_reverse_def rev_filter [symmetric])
qed

subsection \<open>Extraction\<close>

lemma get_text_loop_ok: "get_text_loop (map Inr texts) text = Inr (text @ concat texts)"
  by (induction texts arbitrary: "text") simp_all

lemma get_text_loop_all:
  "list_all (\<lambda>p. \<not> isl p) doc \<Longrightarrow> get_text_loop doc text = Inr (text @ concat (map projr doc))"
proof (induction doc arbitrary: "text")
  case Nil
  then show ?case by simp
next
  case (Cons p doc)
  then show ?case by (cases p) simp_all
qed

lemma get_text_loop_fails:
  "\<not> list_all (\<lambda>p. \<not> isl p) doc \<Longrightarrow> \<exists>e. get_text_loop doc text = Inl e"
proof (induction doc arbitrary: "text")
  case Nil
  then show ?case by simp
next
  case (Cons p doc)
  then show ?case by (cases p) simp_all
qed

lemma extract_well_formed:
  "well_formed file \<Longrightarrow>
     extract_text_from_pdf file = (concat (page_texts file), [OpenPdf (filename file)])"
  by (auto simp add: well_formed_def page_texts_def extract_text_from_pdf_def get_text_loop_all
      split: sum.splits)

lemma extract_malformed:
  assumes "\<not> well_formed file"
  shows "\<exists>e. extract_text_from_pdf file =
           ('''', [OpenPdf (filename file), Error (''Error reading PDF file: '' @ e)])"
proof (cases "stream file")
  case (Inl e)
  then show ?thesis by (simp add: extract_text_from_pdf_def)
next
  case (Inr doc)
  then have "\<not> list_all (\<lambda>p. \<not> isl p) doc" using assms by (simp add: well_formed_def)
  then obtain e where "get_text_loop doc '''' = Inl e" using get_text_loop_fails by blast
  with Inr show ?thesis by (simp add: extract_text_from_pdf_def)
qed

lemma extract_events:
  "snd (extract_text_from_pdf file) = [OpenPdf (filename file)]
   \<or> (\<exists>e. snd (extract_text_from_pdf file) =
            [OpenPdf (filename file), Error (''Error reading PDF file: '' @ e)])"
  using extract_well_formed [of "file"] extract_malformed [of "file"]
  by (cases "well_formed file") auto

lemma fst_extract_loop_Cons:
  "fst (extract_loop (file # files) d) =
     fst (extract_loop files (dict_set (filename file) (fst (extract_text_from_pdf file)) d))"
  by (simp add: case_prod_beta)

lemma snd_extract_loop_Cons:
  "snd (extract_loop (file # files) d) =
     snd (extract_text_from_pdf file) @
     (if py_strip (fst (extract_text_from_pdf file)) = '''' then
        [Warning (''No text extracted from resume: '' @ filename file)]
      else []) @
     snd (extract_loop files (dict_set (filename file) (fst (extract_text_from_pdf file)) d))"
  by (simp add: case_prod_beta)

lemma extract_loop_opens:
  "file \<in> set files \<Longrightarrow> OpenPdf (filename file) \<in> set (snd (extract_loop files d))"
proof (induction files arbitrary: d)
  case Nil
  then show ?case by simp
next
  case (Cons f files)
  have "OpenPdf (filename f) \<in> set (snd (extract_text_from_pdf f))"
    using extract_events [of f] by auto
  then show ?case using Cons by (auto simp add: snd_extract_loop_Cons simp del: extract_loop.simps)
qed

lemma extract_loop_warns:
  "file \<in> set files \<Longrightarrow> py_strip (fst (extract_text_from_pdf file)) = '''' \<Longrightarrow>
     Warning (''No text extracted from resume: '' @ filename file) \<in> set (snd (extract_loop files d))"
proof (induction files arbitrary: d)
  case Nil
  then show ?case by simp
next
  case (Cons f files)
  then show ?case by (auto simp add: snd_extract_loop_Cons simp del: extract_loop.simps)
qed

lemma extract_loop_events:
  "e \<in> set (snd (extract_loop files d)) \<Longrightarrow>
     (\<exists>nm. e = OpenPdf nm) \<or> (\<exists>x. e = Error (''Error reading PDF file: '' @ x))
     \<or> (\<exists>nm. e = Warning (''No text extracted from resume: '' @ nm))"
proof (induction files arbitrary: d)
  case Nil
  then show ?case by simp
next
  case (Cons f files)
  from Cons.prems consider
      "e \<in> set (snd (extract_text_from_pdf f))"
    | "e = Warning (''No text extracted from resume: '' @ filename f)"
    | "e \<in> set (snd (extract_loop files (dict_set (filename f) (fst (extract_text_from_pdf f)) d)))"
    by (auto simp add: snd_extract_loop_Cons simp del: extract_loop.simps split: if_splits)
  then show ?case
  proof cases
    case 1
    then show ?thesis using extract_events [of f] by auto
  next
    case 2
    then show ?thesis by blast
  next
    case 3
    then show ?thesis by (rule Cons.IH)
  qed
qed

lemma extract_loop_no_llm_call: "e \<in> set (snd (extract_loop files d)) \<Longrightarrow> \<not> is_llm_call e"
  using extract_loop_events [of e files d] by (auto simp add: is_llm_call_def)

subsection \<open>The dictionary of texts\<close>

lemma dict_set_map_fst: "set (map fst (dict_set k v d)) = insert k (set (map fst d))"
proof (induction d)
  case Nil
  show ?case by simp
next
  case (Cons p d)
  obtain k' v' where p: "p = (k', v')" by (cases p)
  show ?case
  proof (cases "k' = k")
    case True
    then show ?thesis by (simp add: p)
  next
    case False
    then show ?thesis using Cons.IH by (simp add: p insert_commute)
  qed
qed

lemma dict_set_keys: "fst ` set (dict_set k v d) = insert k (fst ` set d)"
  using dict_set_map_fst [of k v d] by simp

lemma dict_set_distinct: "distinct (map fst d) \<Longrightarrow> distinct (map fst (dict_set k v d))"
  by (induction d) (auto simp add: dict_set_keys)

lemma dict_set_nonempty: "dict_set k v d \<noteq> []"
  by (cases d) (auto split: if_splits)

lemma dict_set_has: "(k, v) \<in> set (dict_set k v d)"
  by (induction d) auto

lemma dict_set_other: "(k', v') \<in> set d \<Longrightarrow> k' \<noteq> k \<Longrightarrow> (k', v') \<in> set (dict_set k v d)"
  by (induction d) auto

lemma extract_loop_keys:
  "fst ` set (fst (extract_loop files d)) = fst ` set d \<union> filename ` set files"
proof (induction files arbitrary: d)
  case Nil
  then show ?case by simp
next
  case (Cons f files)
  show ?case
    unfolding fst_extract_loop_Cons Cons.IH by (auto simp add: dict_set_keys)
qed

lemma extract_loop_distinct:
  "distinct (map fst d) \<Longrightarrow> distinct (map fst (fst (extract_loop files d)))"
proof (induction files arbitrary: d)
  case Nil
  then show ?case by simp
next
  case (Cons f files)
  show ?case
    unfolding fst_extract_loop_Cons using Cons.prems by (intro Cons.IH dict_set_distinct)
qed

lemma extract_loop_nonempty: "d \<noteq> [] \<or> files \<noteq> [] \<Longrightarrow> fst (extract_loop files d) \<noteq> []"
proof (induction files arbitrary: d)
  case Nil
  then show ?case by simp
next
  case (Cons f files)
  show ?case
    unfolding fst_extract_loop_Cons by (rule Cons.IH) (simp add: dict_set_nonempty)
qed

lemma extract_loop_keeps:
  "(k, v) \<in> set d \<Longrightarrow> k \<notin> filename ` set files \<Longrightarrow> (k, v) \<in> set (fst (extract_loop files d))"
proof (induction files arbitrary: d)
  case Nil
  then show ?case by simp
next
  case (Cons f files)
  have "(k, v) \<in> set (dict_set (filename f) (fst (extract_text_from_pdf f)) d)"
    using Cons.prems by (intro dict_set_other) auto
  then show ?case
    unfolding fst_extract_loop_Cons using Cons.prems by (intro Cons.IH) auto
qed

lemma extract_loop_last_wins:
  assumes "filename file \<notin> filename ` set post"
  shows "(filename file, fst (extract_text_from_pdf file))
           \<in> set (fst (extract_loop (pre @ file # post) d))"
proof (induction pre arbitrary: d)
  case Nil
  show ?case
    unfolding append_Nil fst_extract_loop_Cons using assms
    by (intro extract_loop_keeps dict_set_has)
next
  case (Cons f pre)
  show ?case
    unfolding append_Cons fst_extract_loop_Cons by (rule Cons.IH)
qed

lemma length_resumes_texts:
  "length (fst (extract_loop files [])) = card (filename ` set files)"
proof -
  have "length (fst (extract_loop files [])) = length (map fst (fst (extract_loop files [])))"
    by simp
  also have "\<dots> = card (set (map fst (fst (extract_loop files []))))"
    using distinct_card [OF extract_loop_distinct [of "[]" files]] by simp
  also have "\<dots> = card (filename ` set files)"
    using extract_loop_keys [of files "[]"] by simp
  finally show ?thesis .
qed

subsection \<open>Scoring and display\<close>

lemma score_resume_calls:
  "LlmCall (messages_for jd_text resume_text resume_name)
     \<in> set (snd (score_resume llm jd_text resume_text resume_name))"
  by (simp add: score_resume_def messages_for_def Let_def split: sum.splits option.splits)

lemma score_resume_events:
  "e \<in> set (snd (score_resume llm jd_text resume_text resume_name)) \<Longrightarrow>
     e = LlmCall (messages_for jd_text resume_text resume_name) \<or> (\<exists>w. e = Warning w)"
  by (auto simp add: score_resume_def messages_for_def Let_def split: sum.splits option.splits)

lemma score_resume_result:
  "score_or_sentinel (fst (score_resume llm jd_text resume_text resume_name))"
  using score_resume_cases [of llm jd_text resume_text resume_name]
  by (auto simp add: score_or_sentinel_def)

lemma fst_score_loop:
  "fst (score_loop llm jd_text n idx items scores) =
     scores @ map (\<lambda>(nm, t). \<lparr>name = nm, score = fst (score_resume llm jd_text t nm)\<rparr>) items"
  by (induction items arbitrary: idx scores) (auto simp add: case_prod_beta)

lemma snd_score_loop_Cons:
  "snd (score_loop llm jd_text n idx ((nm, t) # items) scores) =
     snd (score_resume llm jd_text t nm) @ Progress (idx + 1) n #
     snd (score_loop llm jd_text n (idx + 1) items
            (scores @ [\<lparr>name = nm, score = fst (score_resume llm jd_text t nm)\<rparr>]))"
  by (simp add: case_prod_beta)

lemma score_loop_calls:
  "(nm, t) \<in> set items \<Longrightarrow>
     LlmCall (messages_for jd_text t nm) \<in> set (snd (score_loop llm jd_text n idx items scores))"
proof (induction items arbitrary: idx scores)
  case Nil
  then show ?case by simp
next
  case (Cons p items)
  obtain nm' t' where p: "p = (nm', t')" by (cases p)
  show ?case
  proof (cases "(nm, t) = p")
    case True
    then show ?thesis
      unfolding p snd_score_loop_Cons using score_resume_calls [of jd_text t nm llm] by simp
  next
    case False
    then have "(nm, t) \<in> set items" using Cons.prems by simp
    then show ?thesis unfolding p snd_score_loop_Cons using Cons.IH by simp
  qed
qed

lemma score_loop_events:
  "e \<in> set (snd (score_loop llm jd_text n idx items scores)) \<Longrightarrow>
     (\<exists>ms. e = LlmCall ms) \<or> (\<exists>w. e = Warning w) \<or> (\<exists>a b. e = Progress a b)"
proof (induction items arbitrary: idx scores)
  case Nil
  then show ?case by simp
next
  case (Cons p items)
  obtain nm t where p: "p = (nm, t)" by (cases p)
  from Cons.prems consider
      "e \<in> set (snd (score_resume llm jd_text t nm))"
    | "e = Progress (idx + 1) n"
    | "e \<in> set (snd (score_loop llm jd_text n (idx + 1) items
                       (scores @ [\<lparr>name = nm, score = fst (score_resume llm jd_text t nm)\<rparr>])))"
    unfolding p snd_score_loop_Cons by auto
  then show ?case
  proof cases
    case 1
    then show ?thesis using score_resume_events by blast
  next
    case 2
    then show ?thesis by blast
  next
    case 3
    then show ?thesis by (rule Cons.IH)
  qed
qed

lemma display_loop_shows:
  "item \<in> set items \<Longrightarrow>
     \<exists>i. Ranked i (name item) (if score item = Fin (- 1) then NA else TwoDecimals (score item))
           \<in> set (display_loop k items)"
proof (induction items arbitrary: k)
  case Nil
  then show ?case by simp
next
  case (Cons x items)
  show ?case
  proof (cases "item = x")
    case True
    then show ?thesis by (intro exI [of _ k]) simp
  next
    case False
    then have "item \<in> set items" using Cons.prems by simp
    then obtain i where
      "Ranked i (name item) (if score item = Fin (- 1) then NA else TwoDecimals (score item))
         \<in> set (display_loop (k + 1) items)"
      using Cons.IH by blast
    then show ?thesis by (intro exI [of _ i]) simp
  qed
qed

lemma display_loop_events: "e \<in> set (display_loop k items) \<Longrightarrow> \<exists>i nm s. e = Ranked i nm s"
  by (induction items arbitrary: k) auto

lemma length_display_loop: "length (display_loop k items) = length items"
  by (induction items arbitrary: k) simp_all

subsection \<open>The runs of \<open>main\<close>\<close>

lemma resumes_texts_nonempty: "resume_files \<noteq> [] \<Longrightarrow> resumes_texts_of resume_files \<noteq> []"
  unfolding resumes_texts_of_def by (rule extract_loop_nonempty) simp

lemma process_unconfigured:
  assumes "\<not> configured env" and "resume_files \<noteq> []"
  shows "process azure env jd_text resume_files =
           Spinner ''Extracting text from resumes...'' # snd (extract_loop resume_files []) @
           [Error env_error]"
  using assms resumes_texts_nonempty [of resume_files]
  by (simp add: process_def configured_def resumes_texts_of_def case_prod_beta)

lemma process_configured:
  assumes "configured env" and "resume_files \<noteq> []"
  shows "process azure env jd_text resume_files =
           Spinner ''Extracting text from resumes...'' # snd (extract_loop resume_files []) @
           Spinner ''Initializing language model...'' # Progress 0 1 #
           snd (score_loop (azure (client_of_env env)) jd_text (length (resumes_texts_of resume_files)) 0
                  (resumes_texts_of resume_files) []) @
           Subheader ''Ranked Resumes'' #
           display_loop 1 (sorted_reverse score (scores_of azure env jd_text resume_files))"
  using assms resumes_texts_nonempty [of resume_files]
  by (simp add: process_def configured_def resumes_texts_of_def scores_of_def case_prod_beta Let_def)

lemma main_process:
  assumes "resume_files \<noteq> []" and "length resume_files \<le> 10"
  shows "main azure env (Some (Inr jd_text)) resume_files =
           header @ process azure env jd_text resume_files"
  using assms by (simp add: main_def header_def)

lemma scores_of_eq:
  "scores_of azure env jd_text resume_files =
     map (\<lambda>(nm, t). \<lparr>name = nm, score = fst (score_resume (azure (client_of_env env)) jd_text t nm)\<rparr>)
       (resumes_texts_of resume_files)"
  by (simp add: scores_of_def fst_score_loop)

lemma length_scores_of:
  "length (scores_of azure env jd_text resume_files) = card (filename ` set resume_files)"
  by (simp add: scores_of_eq resumes_texts_of_def length_resumes_texts)

lemma scores_of_valid: "r \<in> set (scores_of azure env jd_text resume_files) \<Longrightarrow> score_or_sentinel (score r)"
  by (auto simp add: scores_of_eq score_resume_result)

text \<open>
  In a run that reaches the scoring loop, a text stored under a name is scored under that
  name: the model is called with it, and the result is listed and displayed.
\<close>

lemma stored_text_is_scored:
  assumes conf: "configured env" and len: "resume_files \<noteq> []" "length resume_files \<le> 10"
    and stored: "(nm, t) \<in> set (resumes_texts_of resume_files)"
  shows "LlmCall (messages_for jd_text t nm) \<in> set (main azure env (Some (Inr jd_text)) resume_files)"
    and "\<lparr>name = nm, score = fst (score_resume (azure (client_of_env env)) jd_text t nm)\<rparr>
           \<in> set (scores_of azure env jd_text resume_files)"
    and "\<exists>i s. Ranked i nm s \<in> set (main azure env (Some (Inr jd_text)) resume_files)"
proof -
  let ?r = "\<lparr>name = nm, score = fst (score_resume (azure (client_of_env env)) jd_text t nm)\<rparr>"
  have run: "main azure env (Some (Inr jd_text)) resume_files =
      header @ Spinner ''Extracting text from resumes...'' # snd (extract_loop resume_files []) @
      Spinner ''Initializing language model...'' # Progress 0 1 #
      snd (score_loop (azure (client_of_env env)) jd_text (length (resumes_texts_of resume_files)) 0
             (resumes_texts_of resume_files) []) @
      Subheader ''Ranked Resumes'' #
      display_loop 1 (sorted_reverse score (scores_of azure env jd_text resume_files))"
    using main_process [OF len] process_configured [OF conf len(1)] by simp
  show "LlmCall (messages_for jd_text t nm) \<in> set (main azure env (Some (Inr jd_text)) resume_files)"
    unfolding run using score_loop_calls [OF stored] by simp
  show in_scores: "?r \<in> set (scores_of azure env jd_text resume_files)"
    unfolding scores_of_eq using stored by force
  then have "?r \<in> set (sorted_reverse score (scores_of azure env jd_text resume_files))"
    by (simp add: set_sorted_reverse)
  from display_loop_shows [OF this, of 1]
  show "\<exists>i s. Ranked i nm s \<in> set (main azure env (Some (Inr jd_text)) resume_files)"
    unfolding run by auto
qed

lemma every_name_is_stored:
  "file \<in> set resume_files \<Longrightarrow> \<exists>t. (filename file, t) \<in> set (resumes_texts_of resume_files)"
proof -
  assume "file \<in> set resume_files"
  then have "filename file \<in> fst ` set (fst (extract_loop resume_files []))"
    by (simp add: extract_loop_keys)
  then show ?thesis unfolding resumes_texts_of_def by force
qed

lemma last_text_is_stored:
  "filename file \<notin> filename ` set post \<Longrightarrow>
     (filename file, fst (extract_text_from_pdf file)) \<in> set (resumes_texts_of (pre @ file # post))"
  unfolding resumes_texts_of_def by (rule extract_loop_last_wins)

subsection \<open>Ranking\<close>

text \<open>
  C3. For a list of results whose scores are finite numbers (every score that
  \<open>score_resume\<close> returns is one), the ranking is a rearrangement of the list, descending
  by score, and stable: the results with any one score stand in their order of
  submission. So a result with the sentinel \<open>-1\<close> stands below every result with a score
  of at least 0.
\<close>

theorem ranking_descending_stable:
  assumes "\<forall>r\<in>set scores. score r = Fin (v r)"
  shows "mset (sorted_reverse score scores) = mset scores
         \<and> sorted_wrt (\<lambda>a b. v b \<le> v a) (sorted_reverse score scores)
         \<and> (\<forall>s. filter (\<lambda>r. score r = s) (sorted_reverse score scores)
                 = filter (\<lambda>r. score r = s) scores)
         \<and> (\<forall>i j. i < length scores \<and> j < length scores
                  \<and> v (sorted_reverse score scores ! i) = - 1
                  \<and> 0 \<le> v (sorted_reverse score scores ! j) \<longrightarrow> j < i)"
proof -
  let ?out = "sorted_reverse score scores"
  have desc: "sorted_wrt (\<lambda>a b. v b \<le> v a) ?out"
    using assms by (rule sorted_reverse_descending)
  have below: "j < i"
    if "i < length scores" "j < length scores" "v (?out ! i) = - 1" "0 \<le> v (?out ! j)" for i j
  proof (rule ccontr)
    assume "\<not> j < i"
    then consider "i = j" | "i < j" by linarith
    then show False
    proof cases
      case 1
      then show False using that by simp
    next
      case 2
      then have "v (?out ! j) \<le> v (?out ! i)"
        using desc that(2) by (simp add: sorted_wrt_iff_nth_less length_sorted_reverse)
      then show False using that by simp
    qed
  qed
  show ?thesis
    using desc below sorted_reverse_stable [OF assms] by (simp add: mset_sorted_reverse)
qed

theorem ranking_descending_stable_witness:
  "map name (sorted_reverse score abcd) = [''C'', ''A'', ''D'', ''B'']
   \<and> filter (\<lambda>r. score r = Fin 80) (sorted_reverse score abcd) =
       [\<lparr>name = ''A'', score = Fin 80\<rparr>, \<lparr>name = ''D'', score = Fin 80\<rparr>]
   \<and> display_loop 1 (sorted_reverse score abcd) =
       [Ranked 1 ''C'' (TwoDecimals (Fin 95)), Ranked 2 ''A'' (TwoDecimals (Fin 80)),
        Ranked 3 ''D'' (TwoDecimals (Fin 80)), Ranked 4 ''B'' NA]"
proof -
  have fin: "\<forall>r\<in>set abcd. score r = Fin (case score r of Fin x \<Rightarrow> x | _ \<Rightarrow> 0)"
    by (simp add: abcd_def)
  have "filter (\<lambda>r. score r = Fin 80) (sorted_reverse score abcd) =
        filter (\<lambda>r. score r = Fin 80) abcd"
    using ranking_descending_stable [OF fin] by blast
  then have stable: "filter (\<lambda>r. score r = Fin 80) (sorted_reverse score abcd) =
      [\<lparr>name = ''A'', score = Fin 80\<rparr>, \<lparr>name = ''D'', score = Fin 80\<rparr>]"
    by (simp add: abcd_def)
  have order: "sorted_reverse score abcd =
      [\<lparr>name = ''C'', score = Fin 95\<rparr>, \<lparr>name = ''A'', score = Fin 80\<rparr>,
       \<lparr>name = ''D'', score = Fin 80\<rparr>, \<lparr>name = ''B'', score = Fin (- 1)\<rparr>]"
    by (simp add: abcd_def sorted_reverse_def stable_sort_def)
  show ?thesis using stable by (simp add: order)
qed

subsection \<open>Runs that stop early\<close>

lemma header_no_work: "e \<in> set header \<Longrightarrow> \<not> is_extraction e \<and> \<not> is_llm_call e"
  by (auto simp add: header_def is_extraction_def is_llm_call_def)

lemma main_too_many:
  "length resume_files > 10 \<Longrightarrow>
     main azure env (Some jd) resume_files =
       header @ [Warning ''Please upload no more than 10 resumes.'']"
  by (auto simp add: main_def header_def)

lemma main_no_job_description: "main azure env None resume_files = header"
  by (simp add: main_def header_def)

lemma main_no_resumes: "main azure env jd_file [] = header"
  by (simp add: main_def header_def split: option.splits)

lemma main_unreadable:
  "resume_files \<noteq> [] \<Longrightarrow> length resume_files \<le> 10 \<Longrightarrow>
     main azure env (Some (Inl e)) resume_files =
       header @ [Error (''Could not read Job Description file: '' @ e)]"
  by (simp add: main_def header_def)

lemma too_many_no_work:
  assumes "length resume_files > 10" and "e \<in> set (main azure env jd_file resume_files)"
  shows "\<not> is_extraction e \<and> \<not> is_llm_call e"
proof (cases jd_file)
  case None
  then show ?thesis using assms(2) header_no_work by (simp add: main_no_job_description)
next
  case (Some jd')
  then have "e \<in> set header \<or> e = Warning ''Please upload no more than 10 resumes.''"
    using assms(2) main_too_many [OF assms(1), of azure env jd'] by auto
  then show ?thesis using header_no_work by (auto simp add: is_extraction_def is_llm_call_def)
qed

lemma unreadable_no_work:
  assumes "resume_files \<noteq> []" and "length resume_files \<le> 10"
    and "ev \<in> set (main azure env (Some (Inl e)) resume_files)"
  shows "\<not> is_extraction ev \<and> \<not> is_llm_call ev"
proof -
  from assms have "ev \<in> set header \<or> ev = Error (''Could not read Job Description file: '' @ e)"
    by (auto simp add: main_unreadable)
  then show ?thesis using header_no_work by (auto simp add: is_extraction_def is_llm_call_def)
qed

text \<open>
  C6. With more than 10 resume files and a job description uploaded, the run consists of
  the page header and the warning \<open>Please upload no more than 10 resumes.\<close>; whether or
  not a job description is uploaded, no PDF is opened and the model is not called.
\<close>

theorem too_many_resumes_rejected:
  assumes "length resume_files > 10"
  shows "main azure env (Some jd) resume_files =
           header @ [Warning ''Please upload no more than 10 resumes.'']
         \<and> (\<forall>e\<in>set (main azure env jd_file resume_files). \<not> is_extraction e \<and> \<not> is_llm_call e)"
  using main_too_many [OF assms, of azure env jd] too_many_no_work [OF assms, of _ azure env jd_file]
  by blast

theorem too_many_resumes_rejected_witness:
  "main (always ''80'') full_env (Some (Inr ''jd'')) (replicate 11 (pdf ''a.pdf'' [''text''])) =
     header @ [Warning ''Please upload no more than 10 resumes.'']"
  using too_many_resumes_rejected [of "replicate 11 (pdf ''a.pdf'' [''text''])" "always ''80''"
      full_env "Inr ''jd''" None]
  by simp

text \<open>
  C9. When reading or decoding the job description raises, a run with 1 to 10 resume
  files consists of the page header and the error \<open>Could not read Job Description file\<close>
  with the exception's text: no PDF is opened and the model is not called.
\<close>

theorem unreadable_job_description_aborts:
  assumes "resume_files \<noteq> []" and "length resume_files \<le> 10"
  shows "main azure env (Some (Inl e)) resume_files =
           header @ [Error (''Could not read Job Description file: '' @ e)]
         \<and> (\<forall>ev\<in>set (main azure env (Some (Inl e)) resume_files).
               \<not> is_extraction ev \<and> \<not> is_llm_call ev)"
  using main_unreadable [OF assms, of azure env e] unreadable_no_work [OF assms, of _ azure env e]
  by blast

theorem unreadable_job_description_aborts_witness:
  "main (always ''80'') full_env (Some (Inl ''invalid start byte'')) [pdf ''a.pdf'' [''text'']] =
     header @ [Error ''Could not read Job Description file: invalid start byte'']"
  using unreadable_job_description_aborts [of "[pdf ''a.pdf'' [''text'']]" "always ''80''" full_env
      "''invalid start byte''"]
  by simp

subsection \<open>The configuration check\<close>

lemma main_unconfigured:
  assumes "\<not> configured env" and "resume_files \<noteq> []" and "length resume_files \<le> 10"
  shows "main azure env (Some (Inr jd_text)) resume_files =
           header @ Spinner ''Extracting text from resumes...'' #
           snd (extract_loop resume_files []) @ [Error env_error]"
  using main_process [OF assms(2,3)] process_unconfigured [OF assms(1,2)] by simp

lemma unconfigured_no_llm_call:
  assumes "\<not> configured env" and "e \<in> set (main azure env jd_file resume_files)"
  shows "\<not> is_llm_call e"
proof (cases jd_file)
  case None
  then show ?thesis using assms(2) header_no_work by (simp add: main_no_job_description)
next
  case (Some jd)
  show ?thesis
  proof (cases "resume_files = []")
    case True
    then show ?thesis using assms(2) header_no_work by (simp add: main_no_resumes)
  next
    case files: False
    show ?thesis
    proof (cases "length resume_files > 10")
      case True
      then show ?thesis
        using too_many_no_work [of resume_files e azure env jd_file] assms(2) by blast
    next
      case False
      then have len: "length resume_files \<le> 10" by simp
      show ?thesis
      proof (cases jd)
        case (Inl x)
        then show ?thesis
          using unreadable_no_work [OF files len, of e azure env x] assms(2) Some by blast
      next
        case (Inr jd_text)
        then have "e \<in> set header \<or> e = Spinner ''Extracting text from resumes...''
            \<or> e \<in> set (snd (extract_loop resume_files [])) \<or> e = Error env_error"
          using assms(2) Some main_unconfigured [OF assms(1) files len, of azure jd_text] by auto
        then show ?thesis
          using header_no_work extract_loop_no_llm_call by (auto simp add: is_llm_call_def)
      qed
    qed
  qed
qed

text \<open>
  C4, as the program has it. When one of the three required variables is unset or
  empty, the model is never called, whatever is uploaded. In a run with a readable job
  description and 1 to 10 resume files, every PDF is opened and extracted first, with
  its errors and warnings; the configuration error comes after that and ends the run.
\<close>

theorem unconfigured_run_never_scores:
  assumes "\<not> configured env"
  shows "(\<forall>e\<in>set (main azure env jd_file resume_files). \<not> is_llm_call e)
         \<and> (resume_files \<noteq> [] \<and> length resume_files \<le> 10 \<longrightarrow>
              main azure env (Some (Inr jd_text)) resume_files =
                header @ Spinner ''Extracting text from resumes...'' #
                snd (extract_loop resume_files []) @ [Error env_error]
              \<and> (\<forall>file\<in>set resume_files.
                    OpenPdf (filename file) \<in> set (main azure env (Some (Inr jd_text)) resume_files)))"
proof -
  have opened: "OpenPdf (filename file) \<in> set (main azure env (Some (Inr jd_text)) resume_files)"
    if "resume_files \<noteq> []" "length resume_files \<le> 10" "file \<in> set resume_files" for "file"
    using main_unconfigured [OF assms that(1,2), of azure jd_text]
      extract_loop_opens [OF that(3), of "[]"] by simp
  show ?thesis
    using unconfigured_no_llm_call [OF assms, of _ azure jd_file resume_files]
      main_unconfigured [OF assms, of resume_files azure jd_text] opened
    by blast
qed

theorem unconfigured_run_never_scores_witness:
  "main (always ''80'') no_key_env (Some (Inr ''jd'')) [pdf ''a.pdf'' [''text'']] =
     header @ [Spinner ''Extracting text from resumes...'', OpenPdf ''a.pdf'', Error env_error]"
proof -
  have "\<not> configured no_key_env"
    by (simp add: configured_def no_key_env_def full_env_def truthy_def)
  from unconfigured_run_never_scores [OF this, of "always ''80''" None "[pdf ''a.pdf'' [''text'']]" "''jd''"]
  show ?thesis
    by (simp add: pdf_def extract_text_from_pdf_def py_strip_def is_space_def)
qed

text \<open>
  The claim C4 as stated fails: with the API key unset, a readable job description and
  one resume, the PDF is opened before the configuration error is reported.
\<close>

theorem unconfigured_run_extracts_first:
  "\<not> configured no_key_env
   \<and> is_extraction (OpenPdf ''a.pdf'')
   \<and> main (always ''80'') no_key_env (Some (Inr ''jd'')) [pdf ''a.pdf'' [''text'']] =
       header @ [Spinner ''Extracting text from resumes...'', OpenPdf ''a.pdf'', Error env_error]"
  by (simp add: configured_def no_key_env_def full_env_def truthy_def is_extraction_def
      main_def header_def process_def pdf_def extract_text_from_pdf_def py_strip_def is_space_def)

subsection \<open>One result per name\<close>

text \<open>
  C5, at two uploaded files that share the name \<open>cv.pdf\<close>: both PDFs are opened, the
  text of the second replaces the text of the first in \<open>resumes_texts\<close>, the model is
  called once, and the ranking has one line for the two files.
\<close>

theorem duplicate_filename_one_result:
  "main (always ''80'') full_env (Some (Inr ''jd''))
      [pdf ''cv.pdf'' [''Alice''], pdf ''cv.pdf'' [''Bob'']] =
     header @
     [Spinner ''Extracting text from resumes...'', OpenPdf ''cv.pdf'', OpenPdf ''cv.pdf'',
      Spinner ''Initializing language model...'', Progress 0 1,
      LlmCall (messages_for ''jd'' ''Bob'' ''cv.pdf''), Progress 1 1,
      Subheader ''Ranked Resumes'', Ranked 1 ''cv.pdf'' (TwoDecimals (Fin 80))]"
proof -
  have texts: "extract_loop [pdf ''cv.pdf'' [''Alice''], pdf ''cv.pdf'' [''Bob'']] [] =
      ([(''cv.pdf'', ''Bob'')], [OpenPdf ''cv.pdf'', OpenPdf ''cv.pdf''])"
    by (simp add: pdf_def extract_text_from_pdf_def py_strip_def is_space_def)
  have "py_float (py_strip ''80'') = Some (Fin 80)"
    by (simp add: float_eval)
  then have one: "score_resume (always ''80'' (client_of_env full_env)) ''jd'' ''Bob'' ''cv.pdf'' =
      (Fin 80, [LlmCall (messages_for ''jd'' ''Bob'' ''cv.pdf'')])"
    by (simp add: score_resume_parsed always_def clamp_Fin)
  have texts': "resumes_texts_of [pdf ''cv.pdf'' [''Alice''], pdf ''cv.pdf'' [''Bob'']] =
      [(''cv.pdf'', ''Bob'')]"
    using texts by (simp add: resumes_texts_of_def)
  have ranking: "sorted_reverse score [\<lparr>name = ''cv.pdf'', score = Fin 80\<rparr>] =
      [\<lparr>name = ''cv.pdf'', score = Fin 80\<rparr>]"
    by (simp add: sorted_reverse_def stable_sort_def)
  have conf: "configured full_env"
    by (simp add: configured_def full_env_def truthy_def)
  have nonempty: "[pdf ''cv.pdf'' [''Alice''], pdf ''cv.pdf'' [''Bob'']] \<noteq> []"
    by simp
  have "main (always ''80'') full_env (Some (Inr ''jd''))
      [pdf ''cv.pdf'' [''Alice''], pdf ''cv.pdf'' [''Bob'']] =
      header @ process (always ''80'') full_env ''jd''
        [pdf ''cv.pdf'' [''Alice''], pdf ''cv.pdf'' [''Bob'']]"
    by (rule main_process) simp_all
  also have "process (always ''80'') full_env ''jd''
        [pdf ''cv.pdf'' [''Alice''], pdf ''cv.pdf'' [''Bob'']] =
      [Spinner ''Extracting text from resumes...'', OpenPdf ''cv.pdf'', OpenPdf ''cv.pdf'',
       Spinner ''Initializing language model...'', Progress 0 1,
       LlmCall (messages_for ''jd'' ''Bob'' ''cv.pdf''), Progress 1 1,
       Subheader ''Ranked Resumes'', Ranked 1 ''cv.pdf'' (TwoDecimals (Fin 80))]"
    unfolding process_configured [OF conf nonempty] scores_of_def texts' texts
    by (simp add: one ranking)
  finally show ?thesis .
qed

subsection \<open>Resumes without text\<close>

lemma malformed_text_empty: "\<not> well_formed file \<Longrightarrow> fst (extract_text_from_pdf file) = ''''"
  using extract_malformed [of "file"] by auto

lemma py_strip_empty: "py_strip '''' = ''''"
  by (simp add: py_strip_def)

lemma main_configured_events:
  assumes "configured env" and "resume_files \<noteq> []" and "length resume_files \<le> 10"
    and "e \<in> set (snd (extract_loop resume_files []))"
  shows "e \<in> set (main azure env (Some (Inr jd_text)) resume_files)"
  using main_process [OF assms(2,3), of azure env jd_text]
    process_configured [OF assms(1,2), of azure jd_text] assms(4) by simp

text \<open>
  \<open>extract_text_from_pdf\<close> returns for every input. A well-formed PDF gives the texts of
  its pages, concatenated in document order, and no message. Any other input (the
  document does not open, or a page raises) gives the empty string and one error message.
  In a run that reaches the scoring loop the name of such a file is still scored, and
  when no later file has the same name, it is scored with the empty text.
\<close>

lemma extraction_then_scoring:
  "(well_formed file \<longrightarrow>
      extract_text_from_pdf file = (concat (page_texts file), [OpenPdf (filename file)]))
   \<and> (\<not> well_formed file \<longrightarrow>
        (\<exists>e. extract_text_from_pdf file =
               ('''', [OpenPdf (filename file), Error (''Error reading PDF file: '' @ e)])))
   \<and> (\<not> well_formed file \<and> configured env \<and> length (pre @ file # post) \<le> 10 \<longrightarrow>
        (\<exists>t. LlmCall (messages_for jd_text t (filename file))
               \<in> set (main azure env (Some (Inr jd_text)) (pre @ file # post)))
        \<and> (filename file \<notin> filename ` set post \<longrightarrow>
             LlmCall (messages_for jd_text '''' (filename file))
               \<in> set (main azure env (Some (Inr jd_text)) (pre @ file # post))))"
proof -
  have any: "\<exists>t. LlmCall (messages_for jd_text t (filename file))
               \<in> set (main azure env (Some (Inr jd_text)) (pre @ file # post))"
    if conf: "configured env" and len: "length (pre @ file # post) \<le> 10"
  proof -
    obtain t where "(filename file, t) \<in> set (resumes_texts_of (pre @ file # post))"
      using every_name_is_stored [of "file" "pre @ file # post"] by auto
    then show ?thesis
      using stored_text_is_scored(1) [OF conf _ len, where nm = "filename file" and t = t
          and azure = azure and jd_text = jd_text] by auto
  qed
  have last: "LlmCall (messages_for jd_text '''' (filename file))
               \<in> set (main azure env (Some (Inr jd_text)) (pre @ file # post))"
    if bad: "\<not> well_formed file" and conf: "configured env"
      and len: "length (pre @ file # post) \<le> 10" and "filename file \<notin> filename ` set post"
  proof -
    have "(filename file, '''') \<in> set (resumes_texts_of (pre @ file # post))"
      using last_text_is_stored [OF that(4), of pre] malformed_text_empty [OF bad] by simp
    then show ?thesis
      using stored_text_is_scored(1) [OF conf _ len, where nm = "filename file" and t = "''''"
          and azure = azure and jd_text = jd_text] by auto
  qed
  show ?thesis
    using extract_well_formed [of "file"] extract_malformed [of "file"] any last by blast
qed

lemma extraction_then_scoring_example:
  "extract_text_from_pdf (pdf ''a.pdf'' [''page one. '', ''page two.'']) =
     (''page one. page two.'', [OpenPdf ''a.pdf''])
   \<and> extract_text_from_pdf (broken_pdf ''b.pdf'' ''cannot open broken document'') =
       ('''', [OpenPdf ''b.pdf'', Error ''Error reading PDF file: cannot open broken document''])
   \<and> LlmCall (messages_for ''jd'' '''' ''b.pdf'')
       \<in> set (main (always ''80'') full_env (Some (Inr ''jd''))
                [pdf ''a.pdf'' [''page one. '', ''page two.''],
                 broken_pdf ''b.pdf'' ''cannot open broken document''])"
proof -
  have good: "well_formed (pdf ''a.pdf'' [''page one. '', ''page two.''])"
    by (simp add: well_formed_def pdf_def)
  have bad: "\<not> well_formed (broken_pdf ''b.pdf'' ''cannot open broken document'')"
    by (simp add: well_formed_def broken_pdf_def)
  have conf: "configured full_env"
    by (simp add: configured_def full_env_def truthy_def)
  have "extract_text_from_pdf (pdf ''a.pdf'' [''page one. '', ''page two.'']) =
      (''page one. page two.'', [OpenPdf ''a.pdf''])"
    using extraction_then_scoring [of "pdf ''a.pdf'' [''page one. '', ''page two.'']"] good
    by (simp add: page_texts_def pdf_def)
  moreover have "extract_text_from_pdf (broken_pdf ''b.pdf'' ''cannot open broken document'') =
      ('''', [OpenPdf ''b.pdf'', Error ''Error reading PDF file: cannot open broken document''])"
    by (simp add: extract_text_from_pdf_def broken_pdf_def)
  moreover have "LlmCall (messages_for ''jd'' '''' ''b.pdf'')
       \<in> set (main (always ''80'') full_env (Some (Inr ''jd''))
                [pdf ''a.pdf'' [''page one. '', ''page two.''],
                 broken_pdf ''b.pdf'' ''cannot open broken document''])"
    using extraction_then_scoring [of "broken_pdf ''b.pdf'' ''cannot open broken document''" full_env
        "[pdf ''a.pdf'' [''page one. '', ''page two.'']]" "[]" "''jd''" "always ''80''"] bad conf
    by (simp add: broken_pdf_def)
  ultimately show ?thesis by simp
qed

text \<open>
  In a run that reaches the scoring loop (the job description is read, 1 to 10 files,
  the configuration is there), a file whose extracted text is empty or only whitespace
  gets the warning \<open>No text extracted from resume\<close>, and its name is not skipped: the
  model is called for it, the results list has an entry under it whose score is a number
  from 0 to 100 or \<open>-1\<close>, and the ranking shows it. When no later file has the same
  name, the call is made with this file's text.
\<close>

lemma empty_text_name_scored:
  assumes "configured env" and "length resume_files \<le> 10" and "file \<in> set resume_files"
    and "py_strip (fst (extract_text_from_pdf file)) = ''''"
  shows "Warning (''No text extracted from resume: '' @ filename file)
           \<in> set (main azure env (Some (Inr jd_text)) resume_files)
         \<and> (\<exists>t. LlmCall (messages_for jd_text t (filename file))
                 \<in> set (main azure env (Some (Inr jd_text)) resume_files))
         \<and> (\<exists>r. r \<in> set (scores_of azure env jd_text resume_files)
                 \<and> name r = filename file \<and> score_or_sentinel (score r))
         \<and> (\<exists>i s. Ranked i (filename file) s
                 \<in> set (main azure env (Some (Inr jd_text)) resume_files))
         \<and> (\<forall>pre post. resume_files = pre @ file # post \<and> filename file \<notin> filename ` set post \<longrightarrow>
               LlmCall (messages_for jd_text (fst (extract_text_from_pdf file)) (filename file))
                 \<in> set (main azure env (Some (Inr jd_text)) resume_files))"
proof -
  have nonempty: "resume_files \<noteq> []" using assms(3) by auto
  have warned: "Warning (''No text extracted from resume: '' @ filename file)
      \<in> set (main azure env (Some (Inr jd_text)) resume_files)"
    using assms(1) nonempty assms(2) extract_loop_warns [OF assms(3,4)]
    by (rule main_configured_events)
  obtain t where t: "(filename file, t) \<in> set (resumes_texts_of resume_files)"
    using every_name_is_stored [OF assms(3)] by auto
  note scored = stored_text_is_scored [OF assms(1) nonempty assms(2) t,
      where azure = azure and jd_text = jd_text]
  have entry: "\<exists>r. r \<in> set (scores_of azure env jd_text resume_files)
      \<and> name r = filename file \<and> score_or_sentinel (score r)"
  proof (intro exI conjI)
    show "\<lparr>name = filename file,
           score = fst (score_resume (azure (client_of_env env)) jd_text t (filename file))\<rparr>
        \<in> set (scores_of azure env jd_text resume_files)"
      by (rule scored(2))
    show "name \<lparr>name = filename file,
           score = fst (score_resume (azure (client_of_env env)) jd_text t (filename file))\<rparr>
        = filename file"
      by simp
    show "score_or_sentinel (score \<lparr>name = filename file,
           score = fst (score_resume (azure (client_of_env env)) jd_text t (filename file))\<rparr>)"
      by (rule scores_of_valid [OF scored(2)])
  qed
  have own: "LlmCall (messages_for jd_text (fst (extract_text_from_pdf file)) (filename file))
      \<in> set (main azure env (Some (Inr jd_text)) resume_files)"
    if "resume_files = pre @ file # post" "filename file \<notin> filename ` set post" for pre post
  proof -
    have "(filename file, fst (extract_text_from_pdf file)) \<in> set (resumes_texts_of resume_files)"
      unfolding that(1) using that(2) by (rule last_text_is_stored)
    then show ?thesis
      by (rule stored_text_is_scored(1) [OF assms(1) nonempty assms(2)])
  qed
  show ?thesis using warned scored(1,3) entry own by blast
qed

lemma empty_text_name_scored_example:
  "Warning ''No text extracted from resume: cv.pdf''
     \<in> set (main (always ''80'') full_env (Some (Inr ''Looking for a Python backend engineer''))
              [pdf ''cv.pdf'' ['''']])
   \<and> LlmCall (messages_for ''Looking for a Python backend engineer'' '''' ''cv.pdf'')
       \<in> set (main (always ''80'') full_env (Some (Inr ''Looking for a Python backend engineer''))
                [pdf ''cv.pdf'' ['''']])"
proof -
  have conf: "configured full_env"
    by (simp add: configured_def full_env_def truthy_def)
  have no_text: "fst (extract_text_from_pdf (pdf ''cv.pdf'' [''''])) = ''''"
    by (simp add: extract_text_from_pdf_def pdf_def)
  have its_name: "filename (pdf ''cv.pdf'' ['''']) = ''cv.pdf''"
    by (simp add: pdf_def)
  have empty: "py_strip (fst (extract_text_from_pdf (pdf ''cv.pdf'' ['''']))) = ''''"
    by (simp add: no_text py_strip_empty)
  have "[pdf ''cv.pdf'' ['''']] = [] @ pdf ''cv.pdf'' [''''] # []
      \<and> filename (pdf ''cv.pdf'' ['''']) \<notin> filename ` set []"
    by simp
  then show ?thesis
    using empty_text_name_scored [OF conf _ _ empty, of "[pdf ''cv.pdf'' ['''']]" "always ''80''"
        "''Looking for a Python backend engineer''"]
    unfolding no_text its_name by force
qed

subsection \<open>The branch for no texts\<close>

lemma process_never_no_texts:
  assumes "resume_files \<noteq> []"
  shows "Error ''No resume texts available to score.'' \<notin> set (process azure env jd_text resume_files)"
proof
  assume bad: "Error ''No resume texts available to score.'' \<in> set (process azure env jd_text resume_files)"
  let ?e = "Error ''No resume texts available to score.''"
  have not_extract: "?e \<notin> set (snd (extract_loop resume_files []))"
    using extract_loop_events [of ?e resume_files "[]"] by auto
  show False
  proof (cases "configured env")
    case False
    then show False
      using bad not_extract process_unconfigured [OF False assms, of azure jd_text]
      by (simp add: env_error_def)
  next
    case True
    have "?e \<notin> set (snd (score_loop (azure (client_of_env env)) jd_text
        (length (resumes_texts_of resume_files)) 0 (resumes_texts_of resume_files) []))"
      using score_loop_events [of ?e] by auto
    moreover have "?e \<notin> set (display_loop 1 (sorted_reverse score (scores_of azure env jd_text resume_files)))"
      using display_loop_events [of ?e] by auto
    ultimately show False
      using bad not_extract process_configured [OF True assms, of azure jd_text] by simp
  qed
qed

text \<open>
  C10. When at least one resume file is uploaded, \<open>resumes_texts\<close> is not empty after the
  extraction loop, and no run reports \<open>No resume texts available to score.\<close>
\<close>

theorem no_texts_branch_unreachable:
  assumes "resume_files \<noteq> []"
  shows "resumes_texts_of resume_files \<noteq> []
         \<and> Error ''No resume texts available to score.''
             \<notin> set (main azure env jd_file resume_files)"
proof -
  have "Error ''No resume texts available to score.'' \<notin> set (main azure env jd_file resume_files)"
  proof (cases jd_file)
    case None
    then show ?thesis by (simp add: main_no_job_description header_def)
  next
    case (Some jd)
    show ?thesis
    proof (cases "length resume_files > 10")
      case True
      then show ?thesis using Some by (simp add: main_too_many header_def)
    next
      case False
      then have len: "length resume_files \<le> 10" by simp
      show ?thesis
      proof (cases jd)
        case (Inl e)
        then show ?thesis using Some assms len by (simp add: main_unreadable header_def)
      next
        case (Inr jd_text)
        then show ?thesis
          using Some process_never_no_texts [OF assms, of azure env jd_text]
          by (simp add: main_process [OF assms len] header_def)
      qed
    qed
  qed
  then show ?thesis using resumes_texts_nonempty [OF assms] by simp
qed

theorem no_texts_branch_unreachable_witness:
  "resumes_texts_of [broken_pdf ''b.pdf'' ''cannot open broken document''] = [(''b.pdf'', '''')]
   \<and> Error ''No resume texts available to score.''
       \<notin> set (main (always ''80'') full_env (Some (Inr ''jd''))
                [broken_pdf ''b.pdf'' ''cannot open broken document''])"
proof -
  have "resumes_texts_of [broken_pdf ''b.pdf'' ''cannot open broken document''] = [(''b.pdf'', '''')]"
    by (simp add: resumes_texts_of_def broken_pdf_def extract_text_from_pdf_def)
  then show ?thesis
    using no_texts_branch_unreachable [of "[broken_pdf ''b.pdf'' ''cannot open broken document'']"
        "always ''80''" full_env "Some (Inr ''jd'')"]
    by simp
qed

subsection \<open>A file without text, followed by a file of the same name\<close>

lemma different_calls:
  "messages_for ''jd'' '''' ''cv.pdf'' \<noteq> messages_for ''jd'' ''Bob'' ''cv.pdf''"
  by (simp add: messages_for_def query_def)

lemma score_Bob:
  "score_resume (always ''80'' (client_of_env full_env)) ''jd'' ''Bob'' ''cv.pdf'' =
     (Fin 80, [LlmCall (messages_for ''jd'' ''Bob'' ''cv.pdf'')])"
proof -
  have "py_float (py_strip ''80'') = Some (Fin 80)"
    by (simp add: float_eval)
  then show ?thesis
    by (simp add: score_resume_parsed always_def clamp_Fin)
qed

lemma configured_full_env: "configured full_env"
  by (simp add: configured_def full_env_def truthy_def)

lemma rank_one:
  "sorted_reverse score [\<lparr>name = ''cv.pdf'', score = Fin 80\<rparr>] =
     [\<lparr>name = ''cv.pdf'', score = Fin 80\<rparr>]"
  by (simp add: sorted_reverse_def stable_sort_def)

text \<open>
  C7, at an unreadable PDF named \<open>cv.pdf\<close> followed by a readable PDF of the same name.
  \<open>extract_text_from_pdf\<close> gives the empty string and the error for the first file, but
  in \<open>resumes_texts\<close> the text of the second file replaces it: the only call of the model
  is made with the second text, and no call is made with the empty text.
\<close>

theorem shadowed_broken_pdf_not_scored:
  "extract_text_from_pdf (broken_pdf ''cv.pdf'' ''cannot open broken document'') =
     ('''', [OpenPdf ''cv.pdf'', Error ''Error reading PDF file: cannot open broken document''])
   \<and> main (always ''80'') full_env (Some (Inr ''jd''))
        [broken_pdf ''cv.pdf'' ''cannot open broken document'', pdf ''cv.pdf'' [''Bob'']] =
       header @
       [Spinner ''Extracting text from resumes...'',
        OpenPdf ''cv.pdf'', Error ''Error reading PDF file: cannot open broken document'',
        Warning ''No text extracted from resume: cv.pdf'',
        OpenPdf ''cv.pdf'',
        Spinner ''Initializing language model...'', Progress 0 1,
        LlmCall (messages_for ''jd'' ''Bob'' ''cv.pdf''), Progress 1 1,
        Subheader ''Ranked Resumes'', Ranked 1 ''cv.pdf'' (TwoDecimals (Fin 80))]
   \<and> LlmCall (messages_for ''jd'' '''' ''cv.pdf'')
       \<notin> set (main (always ''80'') full_env (Some (Inr ''jd''))
                [broken_pdf ''cv.pdf'' ''cannot open broken document'', pdf ''cv.pdf'' [''Bob'']])"
proof -
  let ?files = "[broken_pdf ''cv.pdf'' ''cannot open broken document'', pdf ''cv.pdf'' [''Bob'']]"
  have first: "extract_text_from_pdf (broken_pdf ''cv.pdf'' ''cannot open broken document'') =
      ('''', [OpenPdf ''cv.pdf'', Error ''Error reading PDF file: cannot open broken document''])"
    by (simp add: extract_text_from_pdf_def broken_pdf_def)
  have texts: "extract_loop ?files [] =
      ([(''cv.pdf'', ''Bob'')],
       [OpenPdf ''cv.pdf'', Error ''Error reading PDF file: cannot open broken document'',
        Warning ''No text extracted from resume: cv.pdf'', OpenPdf ''cv.pdf''])"
    by (simp add: pdf_def broken_pdf_def extract_text_from_pdf_def py_strip_def is_space_def)
  have texts': "resumes_texts_of ?files = [(''cv.pdf'', ''Bob'')]"
    using texts by (simp add: resumes_texts_of_def)
  have nonempty: "?files \<noteq> []"
    by simp
  have "main (always ''80'') full_env (Some (Inr ''jd'')) ?files =
      header @ process (always ''80'') full_env ''jd'' ?files"
    by (rule main_process) simp_all
  also have "process (always ''80'') full_env ''jd'' ?files =
      [Spinner ''Extracting text from resumes...'',
       OpenPdf ''cv.pdf'', Error ''Error reading PDF file: cannot open broken document'',
       Warning ''No text extracted from resume: cv.pdf'',
       OpenPdf ''cv.pdf'',
       Spinner ''Initializing language model...'', Progress 0 1,
       LlmCall (messages_for ''jd'' ''Bob'' ''cv.pdf''), Progress 1 1,
       Subheader ''Ranked Resumes'', Ranked 1 ''cv.pdf'' (TwoDecimals (Fin 80))]"
    unfolding process_configured [OF configured_full_env nonempty] scores_of_def texts' texts
    by (simp add: score_Bob rank_one)
  finally have run: "main (always ''80'') full_env (Some (Inr ''jd'')) ?files =
      header @
      [Spinner ''Extracting text from resumes...'',
       OpenPdf ''cv.pdf'', Error ''Error reading PDF file: cannot open broken document'',
       Warning ''No text extracted from resume: cv.pdf'',
       OpenPdf ''cv.pdf'',
       Spinner ''Initializing language model...'', Progress 0 1,
       LlmCall (messages_for ''jd'' ''Bob'' ''cv.pdf''), Progress 1 1,
       Subheader ''Ranked Resumes'', Ranked 1 ''cv.pdf'' (TwoDecimals (Fin 80))]" .
  have absent: "LlmCall (messages_for ''jd'' '''' ''cv.pdf'')
      \<notin> set (main (always ''80'') full_env (Some (Inr ''jd'')) ?files)"
    unfolding run using different_calls by (simp add: header_def)
  show ?thesis using first run absent by simp
qed

text \<open>
  C8, at a PDF named \<open>cv.pdf\<close> whose only page has no text, followed by a PDF of the same
  name with text. The first file gets the warning, but in \<open>resumes_texts\<close> the text of the
  second file replaces its text: the model is called once, with the second text, and
  the results list and the ranking have one entry, for the second file. The file without
  text gets no scoring attempt and no entry of its own.
\<close>

theorem shadowed_blank_resume_not_scored:
  "main (always ''80'') full_env (Some (Inr ''Looking for a Python backend engineer''))
      [pdf ''cv.pdf'' [''''], pdf ''cv.pdf'' [''Bob'']] =
     header @
     [Spinner ''Extracting text from resumes...'',
      OpenPdf ''cv.pdf'', Warning ''No text extracted from resume: cv.pdf'',
      OpenPdf ''cv.pdf'',
      Spinner ''Initializing language model...'', Progress 0 1,
      LlmCall (messages_for ''Looking for a Python backend engineer'' ''Bob'' ''cv.pdf''),
      Progress 1 1,
      Subheader ''Ranked Resumes'', Ranked 1 ''cv.pdf'' (TwoDecimals (Fin 80))]
   \<and> scores_of (always ''80'') full_env ''Looking for a Python backend engineer''
        [pdf ''cv.pdf'' [''''], pdf ''cv.pdf'' [''Bob'']] =
       [\<lparr>name = ''cv.pdf'', score = Fin 80\<rparr>]
   \<and> LlmCall (messages_for ''Looking for a Python backend engineer'' '''' ''cv.pdf'')
       \<notin> set (main (always ''80'') full_env (Some (Inr ''Looking for a Python backend engineer''))
                [pdf ''cv.pdf'' [''''], pdf ''cv.pdf'' [''Bob'']])"
proof -
  let ?jd = "''Looking for a Python backend engineer''"
  let ?files = "[pdf ''cv.pdf'' [''''], pdf ''cv.pdf'' [''Bob'']]"
  have texts: "extract_loop ?files [] =
      ([(''cv.pdf'', ''Bob'')],
       [OpenPdf ''cv.pdf'', Warning ''No text extracted from resume: cv.pdf'', OpenPdf ''cv.pdf''])"
    by (simp add: pdf_def extract_text_from_pdf_def py_strip_def is_space_def)
  have texts': "resumes_texts_of ?files = [(''cv.pdf'', ''Bob'')]"
    using texts by (simp add: resumes_texts_of_def)
  have "py_float (py_strip ''80'') = Some (Fin 80)"
    by (simp add: float_eval)
  then have one: "score_resume (always ''80'' (client_of_env full_env)) ?jd ''Bob'' ''cv.pdf'' =
      (Fin 80, [LlmCall (messages_for ?jd ''Bob'' ''cv.pdf'')])"
    by (simp add: score_resume_parsed always_def clamp_Fin)
  have scores: "scores_of (always ''80'') full_env ?jd ?files = [\<lparr>name = ''cv.pdf'', score = Fin 80\<rparr>]"
    unfolding scores_of_def texts' by (simp add: one)
  have nonempty: "?files \<noteq> []"
    by simp
  have "main (always ''80'') full_env (Some (Inr ?jd)) ?files =
      header @ process (always ''80'') full_env ?jd ?files"
    by (rule main_process) simp_all
  also have "process (always ''80'') full_env ?jd ?files =
      [Spinner ''Extracting text from resumes...'',
       OpenPdf ''cv.pdf'', Warning ''No text extracted from resume: cv.pdf'',
       OpenPdf ''cv.pdf'',
       Spinner ''Initializing language model...'', Progress 0 1,
       LlmCall (messages_for ?jd ''Bob'' ''cv.pdf''), Progress 1 1,
       Subheader ''Ranked Resumes'', Ranked 1 ''cv.pdf'' (TwoDecimals (Fin 80))]"
    unfolding process_configured [OF configured_full_env nonempty] scores texts' texts
    by (simp add: one rank_one)
  finally have run: "main (always ''80'') full_env (Some (Inr ?jd)) ?files =
      header @
      [Spinner ''Extracting text from resumes...'',
       OpenPdf ''cv.pdf'', Warning ''No text extracted from resume: cv.pdf'',
       OpenPdf ''cv.pdf'',
       Spinner ''Initializing language model...'', Progress 0 1,
       LlmCall (messages_for ?jd ''Bob'' ''cv.pdf''), Progress 1 1,
       Subheader ''Ranked Resumes'', Ranked 1 ''cv.pdf'' (TwoDecimals (Fin 80))]" .
  have "messages_for ?jd '''' ''cv.pdf'' \<noteq> messages_for ?jd ''Bob'' ''cv.pdf''"
    by (simp add: messages_for_def query_def)
  then have absent: "LlmCall (messages_for ?jd '''' ''cv.pdf'')
      \<notin> set (main (always ''80'') full_env (Some (Inr ?jd)) ?files)"
    unfolding run by (simp add: header_def)
  show ?thesis using run scores absent by simp
qed

end
